theory Spec2Isabelle
  imports Complex_Main
begin

section \<open>The JavaScript platform, as far as the scheduler uses it\<close>

subsection \<open>Time values and the Date getters and setters\<close>

text \<open>
  A Date holds a time value: the number of milliseconds since 1970-01-01T00:00:00Z, at
  most 8.64e15 in absolute value, or NaN (the Invalid Date). Time values are modelled as
  integers, so arithmetic on them is exact; \<open>TimeClip\<close> is the range check that every
  Date constructor and setter applies, with \<open>None\<close> for the Invalid Date. The getters
  follow the ECMAScript definitions (Day, HourFromTime, MinFromTime, SecFromTime,
  msFromTime, WeekDay); the calendar date of a day number is computed over the 400, 100, 4
  and 1 year cycles of the proleptic Gregorian calendar, counted from 0000-03-01 so that
  the leap day is the last day of a cycle year.
\<close>

type_synonym js_time = int

definition valid_time :: "int \<Rightarrow> bool" where
  "valid_time t = (- 8640000000000000 \<le> t \<and> t \<le> 8640000000000000)"

definition TimeClip :: "int \<Rightarrow> js_time option" where
  "TimeClip t = (if valid_time t then Some t else None)"

definition msPerDay :: int where
  "msPerDay = 86400000"

definition Day :: "js_time \<Rightarrow> int" where
  "Day t = t div msPerDay"

definition TimeWithinDay :: "js_time \<Rightarrow> int" where
  "TimeWithinDay t = t mod msPerDay"

definition getUTCHours :: "js_time \<Rightarrow> int" where
  "getUTCHours t = (t div 3600000) mod 24"

definition getUTCMinutes :: "js_time \<Rightarrow> int" where
  "getUTCMinutes t = (t div 60000) mod 60"

definition getUTCSeconds :: "js_time \<Rightarrow> int" where
  "getUTCSeconds t = (t div 1000) mod 60"

definition getUTCMilliseconds :: "js_time \<Rightarrow> int" where
  "getUTCMilliseconds t = t mod 1000"

definition getUTCDay :: "js_time \<Rightarrow> int" where
  "getUTCDay t = (Day t + 4) mod 7"

text \<open>Day of the cycle year (0 is March 1st) and the cycle year of a day number.\<close>

definition day_of_cycle_year :: "int \<Rightarrow> int" where
  "day_of_cycle_year d =
     (let doe = (d + 719468) mod 146097;
          r1 = doe - min 3 (doe div 36524) * 36524;
          r2 = r1 mod 1461
      in r2 - min 3 (r2 div 365) * 365)"

definition cycle_year :: "int \<Rightarrow> int" where
  "cycle_year d =
     (let z = d + 719468;
          doe = z mod 146097;
          c = min 3 (doe div 36524);
          r1 = doe - c * 36524;
          r2 = r1 mod 1461
      in (z div 146097) * 400 + c * 100 + (r1 div 1461) * 4 + min 3 (r2 div 365))"

definition month_index :: "int \<Rightarrow> int" where
  "month_index d = (5 * day_of_cycle_year d + 2) div 153"

text \<open>MonthFromTime (0 = January) and DateFromTime (1..31).\<close>

definition getUTCMonth :: "js_time \<Rightarrow> int" where
  "getUTCMonth t = (let mp = month_index (Day t) in if mp < 10 then mp + 2 else mp - 10)"

definition getUTCDate :: "js_time \<Rightarrow> int" where
  "getUTCDate t =
     (let mp = month_index (Day t)
      in day_of_cycle_year (Day t) - (153 * mp + 2) div 5 + 1)"

definition getUTCFullYear :: "js_time \<Rightarrow> int" where
  "getUTCFullYear t = cycle_year (Day t) + (if getUTCMonth t \<le> 1 then 1 else 0)"

text \<open>
  The setters rebuild the time value from the day and the time within the day
  (MakeTime, MakeDay, MakeDate); a component out of its range carries over. The functions
  below compute the new time value; where the program stores it in a Date, \<open>TimeClip\<close>
  is applied (\<open>date_update\<close>: a setter called on a Date, which stays invalid once it
  is).
\<close>

definition setUTCHours4 :: "js_time \<Rightarrow> int \<Rightarrow> int \<Rightarrow> int \<Rightarrow> int \<Rightarrow> js_time" where
  "setUTCHours4 t h m s ms = Day t * msPerDay + h * 3600000 + m * 60000 + s * 1000 + ms"

definition setUTCHours :: "js_time \<Rightarrow> int \<Rightarrow> js_time" where
  "setUTCHours t h = setUTCHours4 t h (getUTCMinutes t) (getUTCSeconds t) (getUTCMilliseconds t)"

definition setUTCMinutes :: "js_time \<Rightarrow> int \<Rightarrow> js_time" where
  "setUTCMinutes t m =
     Day t * msPerDay + getUTCHours t * 3600000 + m * 60000 + getUTCSeconds t * 1000
       + getUTCMilliseconds t"

definition setUTCSeconds :: "js_time \<Rightarrow> int \<Rightarrow> js_time" where
  "setUTCSeconds t s =
     Day t * msPerDay + getUTCHours t * 3600000 + getUTCMinutes t * 60000 + s * 1000
       + getUTCMilliseconds t"

definition setUTCSeconds2 :: "js_time \<Rightarrow> int \<Rightarrow> int \<Rightarrow> js_time" where
  "setUTCSeconds2 t s ms =
     Day t * msPerDay + getUTCHours t * 3600000 + getUTCMinutes t * 60000 + s * 1000 + ms"

definition setUTCMilliseconds :: "js_time \<Rightarrow> int \<Rightarrow> js_time" where
  "setUTCMilliseconds t ms =
     Day t * msPerDay + getUTCHours t * 3600000 + getUTCMinutes t * 60000
       + getUTCSeconds t * 1000 + ms"

definition setUTCDate :: "js_time \<Rightarrow> int \<Rightarrow> js_time" where
  "setUTCDate t d = (Day t - getUTCDate t + d) * msPerDay + TimeWithinDay t"

text \<open>
  Local time. The time zone of the host is a parameter: its offset from UTC in minutes
  before its first transition, and its transitions in increasing order, each the instant
  (UTC) from which a new offset holds. \<open>LocalTime\<close> adds the offset in force.
  \<open>UTC\<close> resolves a local time as ECMAScript does: to the earliest instant that shows
  it (the first pass of a repeated hour) and, for a local time that a forward transition
  skips, with the offset in force before the transition. A local getter reads the local
  time, a local setter changes it and resolves the result. \<open>fixed_zone\<close> is a host
  without transitions; \<open>new_york_2025\<close> is US Eastern time with its two transitions of
  the year 2025.
\<close>

record HostZone =
  base_offset :: int
  transitions :: "(js_time \<times> int) list"

fun offset_from :: "int \<Rightarrow> (js_time \<times> int) list \<Rightarrow> js_time \<Rightarrow> int" where
  "offset_from cur [] t = cur"
| "offset_from cur ((u, off) # rest) t = (if u \<le> t then offset_from off rest t else cur)"

fun utc_from :: "int \<Rightarrow> (js_time \<times> int) list \<Rightarrow> js_time \<Rightarrow> js_time" where
  "utc_from cur [] lt = lt - cur * 60000"
| "utc_from cur ((u, off) # rest) lt =
     (if lt - cur * 60000 < u then lt - cur * 60000
      else if lt - off * 60000 < u then lt - cur * 60000
      else utc_from off rest lt)"

definition LocalTime :: "HostZone \<Rightarrow> js_time \<Rightarrow> js_time" where
  "LocalTime tz t = t + offset_from (base_offset tz) (transitions tz) t * 60000"

definition UTC :: "HostZone \<Rightarrow> js_time \<Rightarrow> js_time" where
  "UTC tz t = utc_from (base_offset tz) (transitions tz) t"

definition fixed_zone :: "int \<Rightarrow> HostZone" where
  "fixed_zone minutes = \<lparr>base_offset = minutes, transitions = []\<rparr>"

definition new_york_2025 :: HostZone where
  "new_york_2025 =
     \<lparr>base_offset = - 300, transitions = [(1741503600000, - 240), (1762063200000, - 300)]\<rparr>"

definition date_update :: "(js_time \<Rightarrow> int) \<Rightarrow> js_time option \<Rightarrow> js_time option" where
  "date_update f d = (case d of None \<Rightarrow> None | Some t \<Rightarrow> TimeClip (f t))"

definition getHours :: "HostZone \<Rightarrow> js_time \<Rightarrow> int" where
  "getHours tz t = getUTCHours (LocalTime tz t)"

definition getMinutes :: "HostZone \<Rightarrow> js_time \<Rightarrow> int" where
  "getMinutes tz t = getUTCMinutes (LocalTime tz t)"

definition getSeconds :: "HostZone \<Rightarrow> js_time \<Rightarrow> int" where
  "getSeconds tz t = getUTCSeconds (LocalTime tz t)"

definition getDate :: "HostZone \<Rightarrow> js_time \<Rightarrow> int" where
  "getDate tz t = getUTCDate (LocalTime tz t)"

definition getMonth :: "HostZone \<Rightarrow> js_time \<Rightarrow> int" where
  "getMonth tz t = getUTCMonth (LocalTime tz t)"

definition getDay :: "HostZone \<Rightarrow> js_time \<Rightarrow> int" where
  "getDay tz t = getUTCDay (LocalTime tz t)"

definition setHours4 :: "HostZone \<Rightarrow> js_time \<Rightarrow> int \<Rightarrow> int \<Rightarrow> int \<Rightarrow> int \<Rightarrow> js_time" where
  "setHours4 tz t h m s ms = UTC tz (setUTCHours4 (LocalTime tz t) h m s ms)"

definition setHours :: "HostZone \<Rightarrow> js_time \<Rightarrow> int \<Rightarrow> js_time" where
  "setHours tz t h = UTC tz (setUTCHours (LocalTime tz t) h)"

definition setMinutes :: "HostZone \<Rightarrow> js_time \<Rightarrow> int \<Rightarrow> js_time" where
  "setMinutes tz t m = UTC tz (setUTCMinutes (LocalTime tz t) m)"

definition setSeconds :: "HostZone \<Rightarrow> js_time \<Rightarrow> int \<Rightarrow> js_time" where
  "setSeconds tz t s = UTC tz (setUTCSeconds (LocalTime tz t) s)"

definition setSeconds2 :: "HostZone \<Rightarrow> js_time \<Rightarrow> int \<Rightarrow> int \<Rightarrow> js_time" where
  "setSeconds2 tz t s ms = UTC tz (setUTCSeconds2 (LocalTime tz t) s ms)"

definition setDate :: "HostZone \<Rightarrow> js_time \<Rightarrow> int \<Rightarrow> js_time" where
  "setDate tz t d = UTC tz (setUTCDate (LocalTime tz t) d)"

text \<open>
  \<open>Math.ceil(a / b)\<close> on integers \<open>a\<close> and \<open>b \<noteq> 0\<close>. For \<open>b = 0\<close> the quotient is
  infinite or NaN and every Date built from it is an Invalid Date: the callers below
  return \<open>None\<close> there. Numbers are doubles in the program: sums and products of
  integers are exact up to 2^53, beyond every valid time value.
\<close>

definition ceil_div :: "int \<Rightarrow> int \<Rightarrow> int" where
  "ceil_div a b = - ((- a) div b)"

section \<open>intervalScheduler: every N units, daily at HH:MM\<close>

datatype TimeUnit = Seconds | Minutes | Hours | Days

record IntervalSchedule =
  every :: int
  unit :: TimeUnit
  aligned :: "bool option"

definition getIntervalMs :: "int \<Rightarrow> TimeUnit \<Rightarrow> int" where
  "getIntervalMs ev u =
     (case u of
        Seconds \<Rightarrow> ev * 1000
      | Minutes \<Rightarrow> ev * 60 * 1000
      | Hours \<Rightarrow> ev * 60 * 60 * 1000
      | Days \<Rightarrow> ev * 24 * 60 * 60 * 1000)"

definition getDriftInterval :: "int \<Rightarrow> TimeUnit \<Rightarrow> js_time \<Rightarrow> js_time option" where
  "getDriftInterval ev u from = TimeClip (from + getIntervalMs ev u)"

text \<open>
  \<open>getAlignedInterval\<close>: the result is \<open>None\<close> for an Invalid Date (a zero \<open>every\<close>
  in the seconds, minutes and hours cases, or a time value out of range). The first
  statement, \<open>next.setSeconds(0, 0)\<close>, is the local setter whatever \<open>useUTC\<close> is.
  When it leaves an Invalid Date, every later getter gives NaN, every comparison is
  false and every setter leaves the date invalid.
\<close>

definition getAlignedInterval ::
  "HostZone \<Rightarrow> int \<Rightarrow> TimeUnit \<Rightarrow> js_time \<Rightarrow> bool \<Rightarrow> js_time option" where
  "getAlignedInterval tz ev u from useUTC =
     (case TimeClip (setSeconds2 tz from 0 0) of
        None \<Rightarrow> None
      | Some next \<Rightarrow>
     (case u of
        Seconds \<Rightarrow>
          (let currentSec = (if useUTC then getUTCSeconds next else getSeconds tz next);
               alignedSec = ceil_div (currentSec + 1) ev * ev
           in if ev = 0 then None
              else if useUTC then TimeClip (setUTCSeconds next alignedSec)
              else TimeClip (setSeconds tz next alignedSec))
      | Minutes \<Rightarrow>
          (let currentMin = (if useUTC then getUTCMinutes next else getMinutes tz next);
               alignedMin = ceil_div (currentMin + 1) ev * ev
           in if ev = 0 then None
              else if alignedMin \<ge> 60 then
                (if useUTC then
                   date_update (\<lambda>n1. setUTCMinutes n1 (alignedMin mod 60))
                     (TimeClip (setUTCHours next (getUTCHours next + 1)))
                 else
                   date_update (\<lambda>n1. setMinutes tz n1 (alignedMin mod 60))
                     (TimeClip (setHours tz next (getHours tz next + 1))))
              else
                (if useUTC then TimeClip (setUTCMinutes next alignedMin)
                 else TimeClip (setMinutes tz next alignedMin)))
      | Hours \<Rightarrow>
          (if useUTC then
             (case TimeClip (setUTCMinutes next 0) of
                None \<Rightarrow> None
              | Some n1 \<Rightarrow>
                  (let currentHour = getUTCHours n1;
                       alignedHour = ceil_div (currentHour + 1) ev * ev
                   in if ev = 0 then None
                      else if alignedHour \<ge> 24 then
                        date_update (\<lambda>n2. setUTCHours n2 (alignedHour mod 24))
                          (TimeClip (setUTCDate n1 (getUTCDate n1 + 1)))
                      else TimeClip (setUTCHours n1 alignedHour)))
           else
             (case TimeClip (setMinutes tz next 0) of
                None \<Rightarrow> None
              | Some n1 \<Rightarrow>
                  (let currentHour = getHours tz n1;
                       alignedHour = ceil_div (currentHour + 1) ev * ev
                   in if ev = 0 then None
                      else if alignedHour \<ge> 24 then
                        date_update (\<lambda>n2. setHours tz n2 (alignedHour mod 24))
                          (TimeClip (setDate tz n1 (getDate tz n1 + 1)))
                      else TimeClip (setHours tz n1 alignedHour))))
      | Days \<Rightarrow>
          (if useUTC then
             date_update (\<lambda>n1. setUTCDate n1 (getUTCDate n1 + ev))
               (TimeClip (setUTCHours4 next 0 0 0 0))
           else
             date_update (\<lambda>n1. setDate tz n1 (getDate tz n1 + ev))
               (TimeClip (setHours4 tz next 0 0 0 0)))))"

definition getNextIntervalOccurrence ::
  "HostZone \<Rightarrow> IntervalSchedule \<Rightarrow> js_time \<Rightarrow> bool \<Rightarrow> js_time option" where
  "getNextIntervalOccurrence tz schedule from useUTC =
     (if (case aligned schedule of None \<Rightarrow> False | Some a \<Rightarrow> a)
      then getAlignedInterval tz (every schedule) (unit schedule) from useUTC
      else getDriftInterval (every schedule) (unit schedule) from)"

section \<open>Strings\<close>

text \<open>
  A string is modelled as the list of its code units, each below 256; strings with other
  code units are outside the model. The functions below are the String methods the
  parsers call. White space (for \<open>trim\<close>, the class \<open>\s\<close> and \<open>parseInt\<close>) is
  tab, line feed, vertical tab, form feed, carriage return, space and the no-break
  space U+00A0. Upper-casing is exact on ASCII; above 127 the model keeps a code unit as
  it is, which can only change the text that a parse error carries.
\<close>

definition is_ws :: "char \<Rightarrow> bool" where
  "is_ws c = (of_char c \<in> {9, 10, 11, 12, 13, 32, 160 :: nat})"

definition is_digit :: "char \<Rightarrow> bool" where
  "is_digit c = (48 \<le> (of_char c :: nat) \<and> (of_char c :: nat) \<le> 57)"

definition trim :: "string \<Rightarrow> string" where
  "trim s = rev (dropWhile is_ws (rev (dropWhile is_ws s)))"

definition upper_char :: "char \<Rightarrow> char" where
  "upper_char c =
     (if 97 \<le> (of_char c :: nat) \<and> (of_char c :: nat) \<le> 122
      then char_of ((of_char c :: nat) - 32) else c)"

definition toUpperCase :: "string \<Rightarrow> string" where
  "toUpperCase s = map upper_char s"

text \<open>\<open>s.split(c)\<close> for a one-character separator: empty pieces are kept.\<close>

fun split_acc :: "char \<Rightarrow> string \<Rightarrow> string \<Rightarrow> string list" where
  "split_acc sep acc [] = [rev acc]"
| "split_acc sep acc (c # cs) =
     (if c = sep then rev acc # split_acc sep [] cs else split_acc sep (c # acc) cs)"

definition split_on :: "char \<Rightarrow> string \<Rightarrow> string list" where
  "split_on sep s = split_acc sep [] s"

text \<open>\<open>s.split(/\s+/)\<close>: each run of white space is one separator.\<close>

function split_ws_acc :: "string \<Rightarrow> string \<Rightarrow> string list" where
  "split_ws_acc acc [] = [rev acc]"
| "split_ws_acc acc (c # cs) =
     (if is_ws c then rev acc # split_ws_acc [] (dropWhile is_ws cs)
      else split_ws_acc (c # acc) cs)"
  by pat_completeness auto
termination
  by (relation "measure (\<lambda>(acc, s). length s)")
     (auto simp: less_Suc_eq_le length_dropWhile_le)

definition split_ws :: "string \<Rightarrow> string list" where
  "split_ws s = split_ws_acc [] s"

text \<open>\<open>s.indexOf(c)\<close>, with \<open>None\<close> for -1.\<close>

fun indexOf :: "char \<Rightarrow> string \<Rightarrow> nat option" where
  "indexOf c [] = None"
| "indexOf c (x # xs) =
     (if x = c then Some 0 else (case indexOf c xs of None \<Rightarrow> None | Some i \<Rightarrow> Some (Suc i)))"

text \<open>\<open>s.includes(sub)\<close> for a substring.\<close>

fun starts_with :: "string \<Rightarrow> string \<Rightarrow> bool" where
  "starts_with [] s = True"
| "starts_with (p # ps) [] = False"
| "starts_with (p # ps) (c # cs) = (p = c \<and> starts_with ps cs)"

fun includes_str :: "string \<Rightarrow> string \<Rightarrow> bool" where
  "includes_str sub [] = (sub = [])"
| "includes_str sub (c # cs) = (starts_with sub (c # cs) \<or> includes_str sub cs)"

text \<open>
  \<open>Number.parseInt(s, 10)\<close>: leading white space is skipped, one sign is read, then the
  longest run of decimal digits; what follows is ignored. \<open>None\<close> is NaN. The value
  is the exact integer; the program holds it as a double, rounded above 2^53, where it
  is out of every field range and only the number in the error differs.
\<close>

definition digits_value :: "string \<Rightarrow> int" where
  "digits_value ds = foldl (\<lambda>n c. 10 * n + (int (of_char c) - 48)) 0 ds"

definition parseInt :: "string \<Rightarrow> int option" where
  "parseInt s =
     (let s1 = dropWhile is_ws s;
          neg = (case s1 of [] \<Rightarrow> False | c # _ \<Rightarrow> c = CHR ''-'');
          s2 = (case s1 of [] \<Rightarrow> []
                | c # r \<Rightarrow> if c = CHR ''-'' \<or> c = CHR ''+'' then r else s1);
          ds = takeWhile is_digit s2
      in if ds = [] then None
         else Some (if neg then - digits_value ds else digits_value ds))"

section \<open>cronParser\<close>

text \<open>Every \<open>throw new Error(...)\<close> of the schedule modules is a value of this type.\<close>

datatype sched_error =
    InvalidCronExpression nat
  | InvalidStepValue string string
  | InvalidRange string string
  | InvalidRangeOrder string string int int
  | InvalidValue string string
  | ValueOutOfRange string int int int
  | ImpossibleSchedule
  | InvalidAtFormat string
  | InvalidHour int
  | InvalidMinute int
  | InvalidScheduleFormat

record CronFields =
  minute :: "int list"
  hour :: "int list"
  dayOfMonth :: "int list"
  month :: "int list"
  dayOfWeek :: "int list"
  isLastDayOfMonth :: bool

definition MONTH_NAMES :: "(string \<times> int) list" where
  "MONTH_NAMES =
     [(''JAN'', 1), (''FEB'', 2), (''MAR'', 3), (''APR'', 4), (''MAY'', 5), (''JUN'', 6),
      (''JUL'', 7), (''AUG'', 8), (''SEP'', 9), (''OCT'', 10), (''NOV'', 11), (''DEC'', 12)]"

definition WEEKDAY_NAMES :: "(string \<times> int) list" where
  "WEEKDAY_NAMES =
     [(''SUN'', 0), (''MON'', 1), (''TUE'', 2), (''WED'', 3), (''THU'', 4), (''FRI'', 5),
      (''SAT'', 6)]"

definition range :: "int \<Rightarrow> int \<Rightarrow> int list" where
  "range start end = [start..end]"

definition parseValue ::
  "string \<Rightarrow> int \<Rightarrow> int \<Rightarrow> string \<Rightarrow> (string \<times> int) list option \<Rightarrow> sched_error + int" where
  "parseValue v mn mx fieldName nameMap =
     (case (case nameMap of None \<Rightarrow> None | Some m \<Rightarrow> map_of m v) of
        Some n \<Rightarrow> Inr n
      | None \<Rightarrow>
          if starts_with ''-'' v then Inl (InvalidValue fieldName v)
          else (case parseInt v of
                  None \<Rightarrow> Inl (InvalidValue fieldName v)
                | Some num \<Rightarrow>
                    if num < mn \<or> num > mx then Inl (ValueOutOfRange fieldName num mn mx)
                    else Inr num))"

definition parseRange ::
  "string \<Rightarrow> int \<Rightarrow> int \<Rightarrow> string \<Rightarrow> (string \<times> int) list option \<Rightarrow> sched_error + int list" where
  "parseRange rangePart mn mx fieldName nameMap =
     (case indexOf CHR ''-'' rangePart of
        None \<Rightarrow> Inl (InvalidRange fieldName rangePart)
      | Some dashIndex \<Rightarrow>
          if dashIndex = 0 \<or> Suc dashIndex = length rangePart
          then Inl (InvalidRange fieldName rangePart)
          else
            (let startStr = take dashIndex rangePart;
                 endStr = drop (Suc dashIndex) rangePart
             in if startStr = [] \<or> endStr = [] then Inl (InvalidRange fieldName rangePart)
                else
                  (case parseValue (trim startStr) mn mx fieldName nameMap of
                     Inl e \<Rightarrow> Inl e
                   | Inr start \<Rightarrow>
                       (case parseValue (trim endStr) mn mx fieldName nameMap of
                          Inl e \<Rightarrow> Inl e
                        | Inr end \<Rightarrow>
                            if start > end
                            then Inl (InvalidRangeOrder fieldName rangePart start end)
                            else Inr (range start end)))))"

text \<open>\<open>baseRange.filter((_, index) => index % step === 0)\<close>.\<close>

definition every_nth :: "int \<Rightarrow> int list \<Rightarrow> int list" where
  "every_nth step xs = map fst (filter (\<lambda>(x, i). int i mod step = 0) (zip xs [0..<length xs]))"

definition parseFieldPart ::
  "string \<Rightarrow> int \<Rightarrow> int \<Rightarrow> string \<Rightarrow> (string \<times> int) list option \<Rightarrow> sched_error + int list" where
  "parseFieldPart part mn mx fieldName nameMap =
     (if CHR ''/'' \<in> set part then
        (let pieces = split_on CHR ''/'' part;
             rangePart = pieces ! 0;
             stepPart = pieces ! 1
         in case parseInt stepPart of
              None \<Rightarrow> Inl (InvalidStepValue fieldName part)
            | Some step \<Rightarrow>
                if step < 1 then Inl (InvalidStepValue fieldName part)
                else
                  (case (if rangePart = ''*'' then Inr (range mn mx)
                         else if CHR ''-'' \<in> set rangePart
                         then parseRange rangePart mn mx fieldName nameMap
                         else (case parseValue rangePart mn mx fieldName nameMap of
                                 Inl e \<Rightarrow> Inl e
                               | Inr start \<Rightarrow> Inr (range start mx))) of
                     Inl e \<Rightarrow> Inl e
                   | Inr baseRange \<Rightarrow> Inr (every_nth step baseRange)))
      else if CHR ''-'' \<in> set part then parseRange part mn mx fieldName nameMap
      else (case parseValue part mn mx fieldName nameMap of
              Inl e \<Rightarrow> Inl e
            | Inr v \<Rightarrow> Inr [v]))"

text \<open>The loop over the comma-separated parts; the first failing part ends it.\<close>

fun parseParts ::
  "string list \<Rightarrow> int \<Rightarrow> int \<Rightarrow> string \<Rightarrow> (string \<times> int) list option \<Rightarrow> int list
     \<Rightarrow> sched_error + int list" where
  "parseParts [] mn mx fieldName nameMap vals = Inr vals"
| "parseParts (p # ps) mn mx fieldName nameMap vals =
     (case parseFieldPart (trim p) mn mx fieldName nameMap of
        Inl e \<Rightarrow> Inl e
      | Inr parsed \<Rightarrow> parseParts ps mn mx fieldName nameMap (vals @ parsed))"

definition parseField ::
  "string \<Rightarrow> int \<Rightarrow> int \<Rightarrow> string \<Rightarrow> (string \<times> int) list option \<Rightarrow> sched_error + int list" where
  "parseField field mn mx fieldName nameMap =
     (let upper = toUpperCase field in
      if upper = ''*'' then Inr (range mn mx)
      else if CHR '','' \<in> set upper then
        (case parseParts (split_on CHR '','' upper) mn mx fieldName nameMap [] of
           Inl e \<Rightarrow> Inl e
         | Inr vals \<Rightarrow> Inr (sort (remdups vals)))
      else parseFieldPart upper mn mx fieldName nameMap)"

definition normalizeWeekdays :: "int list \<Rightarrow> int list" where
  "normalizeWeekdays weekdays = sort (remdups (map (\<lambda>d. if d = 7 then 0 else d) weekdays))"

text \<open>
  The fields of the result are evaluated in the order of the object literal: minute,
  hour, day, month, weekday; the first error is the one thrown.
\<close>

definition parseCronExpression :: "string \<Rightarrow> sched_error + CronFields" where
  "parseCronExpression expression =
     (let parts = split_ws (trim expression) in
      if length parts \<noteq> 5 then Inl (InvalidCronExpression (length parts))
      else
        (let minutePart = parts ! 0; hourPart = parts ! 1; dayPart = parts ! 2;
             monthPart = parts ! 3; weekdayPart = parts ! 4;
             isLast = (toUpperCase dayPart = ''L'')
         in case parseField minutePart 0 59 ''minute'' None of
              Inl e \<Rightarrow> Inl e
            | Inr mi \<Rightarrow>
          (case parseField hourPart 0 23 ''hour'' None of
              Inl e \<Rightarrow> Inl e
            | Inr ho \<Rightarrow>
          (case (if isLast then Inr [] else parseField dayPart 1 31 ''day'' None) of
              Inl e \<Rightarrow> Inl e
            | Inr dm \<Rightarrow>
          (case parseField monthPart 1 12 ''month'' (Some MONTH_NAMES) of
              Inl e \<Rightarrow> Inl e
            | Inr mo \<Rightarrow>
          (case parseField weekdayPart 0 7 ''weekday'' (Some WEEKDAY_NAMES) of
              Inl e \<Rightarrow> Inl e
            | Inr wd \<Rightarrow>
                Inr \<lparr>minute = mi, hour = ho, dayOfMonth = dm, month = mo,
                     dayOfWeek = normalizeWeekdays wd, isLastDayOfMonth = isLast\<rparr>))))))"

text \<open>
  \<open>isLastDayOfMonth(date, useUTC)\<close>: the next day is built with the local \<open>setDate\<close> and
  \<open>getDate\<close> in both modes; only the comparison of the months follows \<open>useUTC\<close>.
  The month of an Invalid Date is NaN, which differs from every month.
\<close>

definition isLastDayOfMonth_date :: "HostZone \<Rightarrow> js_time \<Rightarrow> bool \<Rightarrow> bool" where
  "isLastDayOfMonth_date tz date useUTC =
     (case TimeClip (setDate tz date (getDate tz date + 1)) of
        None \<Rightarrow> True
      | Some nextDay \<Rightarrow>
          if useUTC then getUTCMonth nextDay \<noteq> getUTCMonth date
          else getMonth tz nextDay \<noteq> getMonth tz date)"

definition matchesCronFields :: "HostZone \<Rightarrow> js_time \<Rightarrow> CronFields \<Rightarrow> bool \<Rightarrow> bool" where
  "matchesCronFields tz date cf useUTC =
     (let mi = (if useUTC then getUTCMinutes date else getMinutes tz date);
          ho = (if useUTC then getUTCHours date else getHours tz date);
          day = (if useUTC then getUTCDate date else getDate tz date);
          mo = (if useUTC then getUTCMonth date + 1 else getMonth tz date + 1);
          weekday = (if useUTC then getUTCDay date else getDay tz date)
      in if mi \<notin> set (minute cf) then False
         else if ho \<notin> set (hour cf) then False
         else if mo \<notin> set (month cf) then False
         else
           (let dayMatches =
                  (if isLastDayOfMonth cf then isLastDayOfMonth_date tz date useUTC
                   else length (dayOfMonth cf) = 0 \<or> day \<in> set (dayOfMonth cf));
                weekdayMatches =
                  (length (dayOfWeek cf) = 0 \<or> weekday \<in> set (dayOfWeek cf));
                dayIsSpecified =
                  (isLastDayOfMonth cf \<or>
                   (length (dayOfMonth cf) > 0 \<and> length (dayOfMonth cf) < 31));
                weekdayIsSpecified =
                  (length (dayOfWeek cf) > 0 \<and> length (dayOfWeek cf) < 7)
            in if dayIsSpecified \<and> weekdayIsSpecified then dayMatches \<or> weekdayMatches
               else dayMatches \<and> weekdayMatches))"

definition MAX_ITERATIONS :: nat where
  "MAX_ITERATIONS = 4 * 365 * 24 * 60"

text \<open>
  The \<open>while (iterations < MAX_ITERATIONS)\<close> loop of \<open>getNextCronOccurrence\<close>, entered
  with the number of iterations done and the candidate, a Date; falling out of the loop
  is the final \<open>throw\<close>. An Invalid Date matches nothing (its components are NaN, which
  no field set includes) and stays invalid.
\<close>

definition advance_minute :: "HostZone \<Rightarrow> js_time option \<Rightarrow> js_time option" where
  "advance_minute tz next = date_update (\<lambda>t. setMinutes tz t (getMinutes tz t + 1)) next"

function cron_search ::
  "HostZone \<Rightarrow> CronFields \<Rightarrow> bool \<Rightarrow> nat \<Rightarrow> js_time option \<Rightarrow> sched_error + js_time" where
  "cron_search tz cronFields useUTC iterations next =
     (if iterations < MAX_ITERATIONS then
        (case next of
           None \<Rightarrow> cron_search tz cronFields useUTC (Suc iterations) (advance_minute tz next)
         | Some t \<Rightarrow>
             if matchesCronFields tz t cronFields useUTC then Inr t
             else cron_search tz cronFields useUTC (Suc iterations) (advance_minute tz next))
      else Inl ImpossibleSchedule)"
  by pat_completeness auto
termination
  by (relation "measure (\<lambda>(tz, f, u, i, n). MAX_ITERATIONS - i)") auto

declare cron_search.simps [simp del]

definition getNextCronOccurrence ::
  "HostZone \<Rightarrow> CronFields \<Rightarrow> js_time \<Rightarrow> bool \<Rightarrow> sched_error + js_time" where
  "getNextCronOccurrence tz cronFields from useUTC =
     (let n0 = TimeClip (setSeconds2 tz from 0 0);
          n1 = advance_minute tz n0
      in cron_search tz cronFields useUTC 0 n1)"

section \<open>intervalScheduler: daily at HH:MM, and the entry point\<close>

text \<open>
  A Date that a function returns is a \<open>js_time option\<close> from here on: \<open>None\<close> is the
  Invalid Date. The match of \<open>/^(\d{1,2}):(\d{2})$/\<close> yields the two groups.
\<close>

definition match_at :: "string \<Rightarrow> (string \<times> string) option" where
  "match_at atStr =
     (let g1 = takeWhile is_digit atStr; rest = dropWhile is_digit atStr in
      if length g1 < 1 \<or> length g1 > 2 then None
      else (case rest of
              [] \<Rightarrow> None
            | c # g2 \<Rightarrow>
                if c = CHR '':'' \<and> length g2 = 2 \<and> list_all is_digit g2 then Some (g1, g2)
                else None))"

definition getNextDailyTime ::
  "HostZone \<Rightarrow> string \<Rightarrow> js_time \<Rightarrow> bool \<Rightarrow> sched_error + js_time option" where
  "getNextDailyTime tz atStr from useUTC =
     (case match_at atStr of
        None \<Rightarrow> Inl (InvalidAtFormat atStr)
      | Some (g1, g2) \<Rightarrow>
          (case (parseInt g1, parseInt g2) of
             (Some h, Some m) \<Rightarrow>
               if h < 0 \<or> h > 23 then Inl (InvalidHour h)
               else if m < 0 \<or> m > 59 then Inl (InvalidMinute m)
               else if useUTC then
                 (case TimeClip (setUTCHours4 from h m 0 0) of
                    None \<Rightarrow> Inr None
                  | Some next \<Rightarrow>
                      if next \<le> from
                      then Inr (TimeClip (setUTCDate next (getUTCDate next + 1)))
                      else Inr (Some next))
               else
                 (case TimeClip (setHours4 tz from h m 0 0) of
                    None \<Rightarrow> Inr None
                  | Some next \<Rightarrow>
                      if next \<le> from
                      then Inr (TimeClip (setDate tz next (getDate tz next + 1)))
                      else Inr (Some next))
           | _ \<Rightarrow> Inr None))"

datatype SimpleSchedule = IntervalOf IntervalSchedule | DailyOf string

definition getNextIntervalTime ::
  "HostZone \<Rightarrow> SimpleSchedule \<Rightarrow> js_time \<Rightarrow> bool \<Rightarrow> sched_error + js_time option" where
  "getNextIntervalTime tz schedule from useUTC =
     (case schedule of
        DailyOf atStr \<Rightarrow> getNextDailyTime tz atStr from useUTC
      | IntervalOf i \<Rightarrow> Inr (getNextIntervalOccurrence tz i from useUTC))"

section \<open>scheduler: the schedule router and the job timer\<close>

text \<open>
  A schedule object has the key \<open>every\<close>, \<open>cron\<close> or \<open>at\<close>; \<open>NoVariant\<close> is an
  object with none of them. \<open>now\<close> is the reading of \<open>new Date()\<close>.
\<close>

datatype Schedule = Every IntervalSchedule | Cron string | At string | NoVariant

definition getNextScheduledTime ::
  "HostZone \<Rightarrow> Schedule \<Rightarrow> bool option \<Rightarrow> js_time \<Rightarrow> sched_error + js_time option" where
  "getNextScheduledTime tz schedule utc_opt now =
     (let utc = (case utc_opt of None \<Rightarrow> False | Some u \<Rightarrow> u) in
      case schedule of
        Every i \<Rightarrow>
          getNextIntervalTime tz
            (IntervalOf \<lparr>every = every i, unit = unit i, aligned = aligned i\<rparr>) now utc
      | Cron c \<Rightarrow>
          (case parseCronExpression c of
             Inl e \<Rightarrow> Inl e
           | Inr cf \<Rightarrow>
               (case getNextCronOccurrence tz cf now utc of
                  Inl e \<Rightarrow> Inl e
                | Inr t \<Rightarrow> Inr (Some t)))
      | At a \<Rightarrow> getNextIntervalTime tz (DailyOf a) now utc
      | NoVariant \<Rightarrow> Inl InvalidScheduleFormat)"

text \<open>
  \<open>scheduleJob\<close>. The closure variables \<open>done\<close> (here \<open>isDone\<close>) and \<open>currentTimer\<close> and the timers
  that \<open>Meteor.setTimeout\<close> holds for this job are the state; a timer is its id, the
  delay asked for (\<open>None\<close> is NaN) and its callback. The two callbacks of the source are
  \<open>RetryCb\<close> (\<open>if (!done) scheduleNext()\<close>) and \<open>FireCb nextRun needsReschedule\<close>
  (the callback that runs the job). The trace records what the job timer does to the
  outside: the timers it arms, the calls of \<open>fn\<close> and what it writes to the console.
  \<open>fn\<close> returns normally or throws; it is given as the predicate "throws".
\<close>

datatype sj_callback = RetryCb | FireCb "js_time option" bool

datatype sj_event =
    Armed "int option"
  | FnCalled "js_time option"
  | ErrorScheduling sched_error
  | ErrorExecution

record sj_state =
  isDone :: bool
  currentTimer :: "nat option"
  timers :: "(nat \<times> int option \<times> sj_callback) list"
  next_timer_id :: nat
  trace :: "sj_event list"

definition sj_setTimeout :: "sj_callback \<Rightarrow> int option \<Rightarrow> sj_state \<Rightarrow> nat \<times> sj_state" where
  "sj_setTimeout cb delay st =
     (next_timer_id st,
      st\<lparr>timers := timers st @ [(next_timer_id st, delay, cb)],
         next_timer_id := Suc (next_timer_id st),
         trace := trace st @ [Armed delay]\<rparr>)"

definition sj_clearTimeout :: "nat \<Rightarrow> sj_state \<Rightarrow> sj_state" where
  "sj_clearTimeout tid st = st\<lparr>timers := filter (\<lambda>(i, d, cb). i \<noteq> tid) (timers st)\<rparr>"

definition setMilliseconds :: "HostZone \<Rightarrow> js_time \<Rightarrow> int \<Rightarrow> js_time" where
  "setMilliseconds tz t ms = UTC tz (setUTCMilliseconds (LocalTime tz t) ms)"

text \<open>
  \<open>scheduleNext()\<close>: \<open>now1\<close> is the clock when \<open>getNextScheduledTime\<close> reads it,
  \<open>now2\<close> the reading of \<open>Date.now()\<close> after it.
\<close>

definition scheduleNext ::
  "HostZone \<Rightarrow> Schedule \<Rightarrow> bool option \<Rightarrow> js_time \<Rightarrow> js_time \<Rightarrow> sj_state \<Rightarrow> sj_state" where
  "scheduleNext tz schedule utc_opt now1 now2 st =
     (if isDone st then st
      else
        (case getNextScheduledTime tz schedule utc_opt now1 of
           Inl e \<Rightarrow>
             snd (sj_setTimeout RetryCb (Some 5000)
                    (st\<lparr>trace := trace st @ [ErrorScheduling e]\<rparr>))
         | Inr nextRun \<Rightarrow>
             (let delay = map_option (\<lambda>t. t - now2) nextRun in
              if (case delay of None \<Rightarrow> False | Some d \<Rightarrow> d \<le> 0)
              then snd (sj_setTimeout RetryCb (Some 100) st)
              else
                (let maxDelay = 2147483647;
                     actualDelay = map_option (\<lambda>d. min d maxDelay) delay;
                     needsReschedule =
                       (case (actualDelay, delay) of
                          (Some a, Some d) \<Rightarrow> a < d
                        | _ \<Rightarrow> False);
                     (tid, st') = sj_setTimeout (FireCb nextRun needsReschedule) actualDelay st
                 in st'\<lparr>currentTimer := Some tid\<rparr>))))"

definition scheduleJob ::
  "HostZone \<Rightarrow> Schedule \<Rightarrow> bool option \<Rightarrow> js_time \<Rightarrow> js_time \<Rightarrow> sj_state" where
  "scheduleJob tz schedule utc_opt now1 now2 =
     scheduleNext tz schedule utc_opt now1 now2
       \<lparr>isDone = False, currentTimer = None, timers = [], next_timer_id = 0, trace = []\<rparr>"

text \<open>The body of a timer callback, run when its timer fires.\<close>

definition sj_callback_body ::
  "HostZone \<Rightarrow> Schedule \<Rightarrow> (js_time option \<Rightarrow> bool) \<Rightarrow> bool option \<Rightarrow> sj_callback
     \<Rightarrow> js_time \<Rightarrow> js_time \<Rightarrow> sj_state \<Rightarrow> sj_state" where
  "sj_callback_body tz schedule fn_throws utc_opt cb now1 now2 st =
     (case cb of
        RetryCb \<Rightarrow> if \<not> isDone st then scheduleNext tz schedule utc_opt now1 now2 st else st
      | FireCb nextRun needsReschedule \<Rightarrow>
          if isDone st then st
          else if needsReschedule then scheduleNext tz schedule utc_opt now1 now2 st
          else
            (let intendedAt = date_update (\<lambda>t. setMilliseconds tz t 0) nextRun;
                 st1 = st\<lparr>trace := trace st @ [FnCalled intendedAt]\<rparr>;
                 st2 = (if fn_throws intendedAt
                        then st1\<lparr>trace := trace st1 @ [ErrorExecution]\<rparr> else st1)
             in scheduleNext tz schedule utc_opt now1 now2 st2))"

text \<open>
  The oldest armed timer fires: it leaves the timers and its callback runs. With no timer
  armed nothing happens any more.
\<close>

definition sj_fire ::
  "HostZone \<Rightarrow> Schedule \<Rightarrow> (js_time option \<Rightarrow> bool) \<Rightarrow> bool option
     \<Rightarrow> js_time \<times> js_time \<Rightarrow> sj_state \<Rightarrow> sj_state" where
  "sj_fire tz schedule fn_throws utc_opt clock st =
     (case timers st of
        [] \<Rightarrow> st
      | (tid, delay, cb) # rest \<Rightarrow>
          sj_callback_body tz schedule fn_throws utc_opt cb (fst clock) (snd clock)
            (st\<lparr>timers := rest\<rparr>))"

text \<open>A run of the job timer: one firing for each pair of clock readings.\<close>

fun sj_run ::
  "HostZone \<Rightarrow> Schedule \<Rightarrow> (js_time option \<Rightarrow> bool) \<Rightarrow> bool option
     \<Rightarrow> (js_time \<times> js_time) list \<Rightarrow> sj_state \<Rightarrow> sj_state" where
  "sj_run tz schedule fn_throws utc_opt [] st = st"
| "sj_run tz schedule fn_throws utc_opt (clock # clocks) st =
     sj_run tz schedule fn_throws utc_opt clocks
       (sj_fire tz schedule fn_throws utc_opt clock st)"

text \<open>\<open>clear()\<close> of the handle that \<open>scheduleJob\<close> returns.\<close>

definition sj_clear :: "sj_state \<Rightarrow> sj_state" where
  "sj_clear st =
     (let st1 = st\<lparr>isDone := True\<rparr> in
      case currentTimer st1 of None \<Rightarrow> st1 | Some tid \<Rightarrow> sj_clearTimeout tid st1)"

section \<open>timerManager: the recurring timer with a circuit breaker\<close>

text \<open>
  \<open>getNextTime\<close> is any function: a call of it throws, returns something that is not a
  Date, or returns a Date (\<open>None\<close>: the Invalid Date). It may keep state, so its result
  depends on the number of calls made before as well as on its argument. The callbacks
  \<open>onCircuitBreak\<close>, \<open>onSchedule\<close> and \<open>onError\<close> are optional observers that return
  normally: the options say which are given, and the trace records their calls.
\<close>

datatype 'e next_result = Throws 'e | ReturnsNonDate | ReturnsDate "js_time option"

datatype 'e timer_error =
    Thrown 'e
  | InvalidDateReturned
  | PastTimeReturned js_time js_time
  | CircuitBreakerTripped int "'e timer_error"

datatype tm_callback = BackoffCb | RunCb js_time bool

datatype 'e tm_event =
    TimerArmed int
  | OnScheduleCalled js_time
  | OnErrorCalled "'e timer_error"
  | OnCircuitBreakCalled "'e timer_error"
  | ExecuteCalled "js_time option"

record TimerOptions =
  maxConsecutiveFailures :: "int option"
  has_onCircuitBreak :: bool
  has_onSchedule :: bool
  has_onError :: bool

record 'e tm_state =
  tm_done :: bool
  tm_currentTimer :: "nat option"
  consecutiveFailures :: nat
  tm_timers :: "(nat \<times> int \<times> tm_callback) list"
  tm_next_id :: nat
  tm_calls :: nat
  tm_trace :: "'e tm_event list"

definition MAX_SETTIMEOUT_DELAY :: int where
  "MAX_SETTIMEOUT_DELAY = 2147483647"

definition tm_emit :: "'e tm_event \<Rightarrow> 'e tm_state \<Rightarrow> 'e tm_state" where
  "tm_emit ev st = st\<lparr>tm_trace := tm_trace st @ [ev]\<rparr>"

definition tm_setTimeout :: "tm_callback \<Rightarrow> int \<Rightarrow> 'e tm_state \<Rightarrow> nat \<times> 'e tm_state" where
  "tm_setTimeout cb delay st =
     (tm_next_id st,
      st\<lparr>tm_timers := tm_timers st @ [(tm_next_id st, delay, cb)],
         tm_next_id := Suc (tm_next_id st),
         tm_trace := tm_trace st @ [TimerArmed delay]\<rparr>)"

text \<open>The two validations of the \<open>try\<close> block; \<open>Inl\<close> is what reaches the \<open>catch\<close>.\<close>

definition validate_next :: "'e next_result \<Rightarrow> js_time \<Rightarrow> 'e timer_error + js_time" where
  "validate_next r now =
     (case r of
        Throws e \<Rightarrow> Inl (Thrown e)
      | ReturnsNonDate \<Rightarrow> Inl InvalidDateReturned
      | ReturnsDate None \<Rightarrow> Inl InvalidDateReturned
      | ReturnsDate (Some nextRun) \<Rightarrow>
          if nextRun \<le> now then Inl (PastTimeReturned nextRun now) else Inr nextRun)"

definition tm_scheduleNext ::
  "TimerOptions \<Rightarrow> (nat \<Rightarrow> js_time \<Rightarrow> 'e next_result) \<Rightarrow> js_time \<Rightarrow> 'e tm_state
     \<Rightarrow> 'e tm_state" where
  "tm_scheduleNext opts getNextTime now st =
     (if tm_done st then st
      else
        (let maxFailures = (case maxConsecutiveFailures opts of None \<Rightarrow> 3 | Some m \<Rightarrow> m);
             r = getNextTime (tm_calls st) now;
             st0 = st\<lparr>tm_calls := Suc (tm_calls st)\<rparr>
         in case validate_next r now of
              Inr nextRun \<Rightarrow>
                (let delay = nextRun - now;
                     actualDelay = min delay MAX_SETTIMEOUT_DELAY;
                     needsReschedule = (actualDelay < delay);
                     st1 = st0\<lparr>consecutiveFailures := 0\<rparr>;
                     st2 = (if has_onSchedule opts then tm_emit (OnScheduleCalled nextRun) st1
                            else st1);
                     (tid, st3) = tm_setTimeout (RunCb nextRun needsReschedule) actualDelay st2
                 in st3\<lparr>tm_currentTimer := Some tid\<rparr>)
            | Inl err \<Rightarrow>
                (let st1 = st0\<lparr>consecutiveFailures := Suc (consecutiveFailures st0)\<rparr>;
                     st2 = (if has_onError opts then tm_emit (OnErrorCalled err) st1 else st1)
                 in if int (consecutiveFailures st2) \<ge> maxFailures then
                      (let st3 = st2\<lparr>tm_done := True\<rparr> in
                       if has_onCircuitBreak opts
                       then tm_emit (OnCircuitBreakCalled (CircuitBreakerTripped maxFailures err)) st3
                       else st3)
                    else
                      (let backoffDelay = min (10 * 2 ^ (consecutiveFailures st2 - 1)) 60000;
                           (tid, st3) = tm_setTimeout BackoffCb backoffDelay st2
                       in st3\<lparr>tm_currentTimer := Some tid\<rparr>))))"

definition scheduleRecurring ::
  "TimerOptions \<Rightarrow> (nat \<Rightarrow> js_time \<Rightarrow> 'e next_result) \<Rightarrow> js_time \<Rightarrow> 'e tm_state" where
  "scheduleRecurring opts getNextTime now =
     tm_scheduleNext opts getNextTime now
       \<lparr>tm_done = False, tm_currentTimer = None, consecutiveFailures = 0, tm_timers = [],
        tm_next_id = 0, tm_calls = 0, tm_trace = []\<rparr>"

text \<open>
  The callbacks of the two timers. \<open>execute\<close> is given a Date and returns normally
  (\<open>None\<close>) or throws. The intended time loses its milliseconds by the local
  \<open>setMilliseconds(0)\<close>.
\<close>

definition tm_callback_body ::
  "HostZone \<Rightarrow> TimerOptions \<Rightarrow> (nat \<Rightarrow> js_time \<Rightarrow> 'e next_result) \<Rightarrow> (js_time option \<Rightarrow> 'e option)
     \<Rightarrow> tm_callback \<Rightarrow> js_time \<Rightarrow> 'e tm_state \<Rightarrow> 'e tm_state" where
  "tm_callback_body tz opts getNextTime execute cb now st =
     (case cb of
        BackoffCb \<Rightarrow> if \<not> tm_done st then tm_scheduleNext opts getNextTime now st else st
      | RunCb nextRun needsReschedule \<Rightarrow>
          if tm_done st then st
          else if needsReschedule then tm_scheduleNext opts getNextTime now st
          else
            (let intendedAt = TimeClip (setMilliseconds tz nextRun 0);
                 st1 = tm_emit (ExecuteCalled intendedAt) st;
                 st2 = (case execute intendedAt of
                          None \<Rightarrow> st1
                        | Some executeError \<Rightarrow>
                            if has_onError opts
                            then tm_emit (OnErrorCalled (Thrown executeError)) st1 else st1)
             in tm_scheduleNext opts getNextTime now st2))"

definition tm_fire ::
  "HostZone \<Rightarrow> TimerOptions \<Rightarrow> (nat \<Rightarrow> js_time \<Rightarrow> 'e next_result) \<Rightarrow> (js_time option \<Rightarrow> 'e option)
     \<Rightarrow> js_time \<Rightarrow> 'e tm_state \<Rightarrow> 'e tm_state" where
  "tm_fire tz opts getNextTime execute now st =
     (case tm_timers st of
        [] \<Rightarrow> st
      | (tid, delay, cb) # rest \<Rightarrow>
          tm_callback_body tz opts getNextTime execute cb now (st\<lparr>tm_timers := rest\<rparr>))"

text \<open>
  A run: the armed timer fires at each of the given clock readings in turn. A reading
  for which no timer is armed changes nothing.
\<close>

fun tm_run ::
  "HostZone \<Rightarrow> TimerOptions \<Rightarrow> (nat \<Rightarrow> js_time \<Rightarrow> 'e next_result) \<Rightarrow> (js_time option \<Rightarrow> 'e option)
     \<Rightarrow> js_time list \<Rightarrow> 'e tm_state \<Rightarrow> 'e tm_state" where
  "tm_run tz opts getNextTime execute [] st = st"
| "tm_run tz opts getNextTime execute (now # clocks) st =
     tm_run tz opts getNextTime execute clocks (tm_fire tz opts getNextTime execute now st)"

definition tm_clear :: "'e tm_state \<Rightarrow> 'e tm_state" where
  "tm_clear st =
     (let st1 = st\<lparr>tm_done := True\<rparr> in
      case tm_currentTimer st1 of
        None \<Rightarrow> st1
      | Some tid \<Rightarrow>
          st1\<lparr>tm_timers := filter (\<lambda>(i, d, cb). i \<noteq> tid) (tm_timers st1),
              tm_currentTimer := None\<rparr>)"

section \<open>jobExecutor\<close>

text \<open>
  A thrown value is an Error (a driver error too) with an optional \<open>code\<close>, its
  \<open>message\<close> and its \<open>stack\<close> (\<open>None\<close>: undefined), or any other value, given by
  its \<open>String()\<close> rendering and by the stack that the engine gives to the Error that a
  \<open>catch\<close> block wraps around it. The stack of an Error that the program itself creates
  is read nowhere and is left \<open>None\<close>.
\<close>

datatype js_thrown = ErrorVal "int option" string "string option" | OtherVal string "string option"

text \<open>\<open>error instanceof Error ? error : new Error(String(error))\<close>, and its fields.\<close>

definition as_error :: "js_thrown \<Rightarrow> js_thrown" where
  "as_error e = (case e of ErrorVal c m st \<Rightarrow> e | OtherVal s st \<Rightarrow> ErrorVal None s st)"

definition message_of :: "js_thrown \<Rightarrow> string" where
  "message_of e = (case e of ErrorVal c m st \<Rightarrow> m | OtherVal s st \<Rightarrow> s)"

definition stack_of :: "js_thrown \<Rightarrow> string option" where
  "stack_of e = (case e of ErrorVal c m st \<Rightarrow> st | OtherVal s st \<Rightarrow> st)"

text \<open>\<open>error.stack || error.message\<close>: an undefined or empty stack is falsy.\<close>

definition stack_or_message :: "js_thrown \<Rightarrow> string" where
  "stack_or_message e =
     (case stack_of e of
        None \<Rightarrow> message_of e
      | Some st \<Rightarrow> if st = [] then message_of e else st)"

fun show_nat :: "nat \<Rightarrow> string" where
  "show_nat n =
     (if n < 10 then [char_of (48 + n)] else show_nat (n div 10) @ [char_of (48 + n mod 10)])"

definition show_int :: "int \<Rightarrow> string" where
  "show_int i = (if i < 0 then CHR ''-'' # show_nat (nat (- i)) else show_nat (nat i))"

text \<open>
  A job is called with the intended time and its name. Its outcome is a value or a thrown
  value. It comes at once, before the event loop runs another task (a synchronous job
  that returns or throws, or a promise that settles without waiting for a timer or for
  input), or in a later task, or never. With the outcome comes the number of
  milliseconds from the call to the outcome.
\<close>

datatype 'a settle =
    Resolves 'a
  | Rejects js_thrown
  | NeverSettles
  | ResolvesAtOnce 'a
  | RejectsAtOnce js_thrown

text \<open>
  \<open>await Promise.resolve(job(...))\<close> inside \<open>try\<close>: an outcome that comes at
  once reaches the same continuation as one that comes in a later task.
\<close>

definition awaited :: "'a settle \<Rightarrow> 'a settle" where
  "awaited r =
     (case r of
        ResolvesAtOnce v \<Rightarrow> Resolves v
      | RejectsAtOnce e \<Rightarrow> Rejects e
      | _ \<Rightarrow> r)"

record 'a ExecutionResult =
  success :: bool
  result :: "'a option"
  error :: "string option"
  duration :: int
  timedOut :: bool

record ExecutorOptions =
  timeout :: "int option"
  has_onTimeout :: bool

definition timeout_message :: "string \<Rightarrow> int \<Rightarrow> string" where
  "timeout_message jobName t =
     ''Job '' @ [CHR 0x22] @ jobName @ [CHR 0x22] @ '' timed out after '' @ show_int t @ ''ms''"

text \<open>
  \<open>executeWithTimeoutLimit\<close>: the race of the job against a timer of \<open>timeout\<close> ms,
  which is taken to fire \<open>timeout\<close> ms after it is armed. The timer is armed before
  the job is called, so it wins against a promise that has not settled before it fires.
  It cannot fire before the event loop runs another task: an outcome of the job that
  comes at once is the outcome of the race, however long the job has taken.
\<close>

definition executeWithTimeoutLimit :: "'a settle \<times> int \<Rightarrow> int \<Rightarrow> string \<Rightarrow> 'a settle \<times> int" where
  "executeWithTimeoutLimit run t jobName =
     (case run of
        (NeverSettles, d) \<Rightarrow> (Rejects (ErrorVal None (timeout_message jobName t) None), t)
      | (ResolvesAtOnce v, d) \<Rightarrow> (Resolves v, d)
      | (RejectsAtOnce e, d) \<Rightarrow> (Rejects e, d)
      | (r, d) \<Rightarrow>
          if d < t then (r, d)
          else (Rejects (ErrorVal None (timeout_message jobName t) None), t))"

text \<open>
  \<open>executeWithTimeout\<close> returns the result and the list of the calls of \<open>onTimeout\<close>
  (the duration passed to each); \<open>None\<close> when the promise never settles. The field
  \<open>error\<close> is given by the message of the Error.
\<close>

definition executeWithTimeout ::
  "(js_time \<Rightarrow> string \<Rightarrow> 'a settle \<times> int) \<Rightarrow> js_time \<Rightarrow> string \<Rightarrow> ExecutorOptions
     \<Rightarrow> ('a ExecutionResult \<times> int list) option" where
  "executeWithTimeout job intendedAt jobName options =
     (let run =
            (case timeout options of
               None \<Rightarrow> job intendedAt jobName
             | Some t \<Rightarrow>
                 if t \<noteq> 0 \<and> t > 0
                 then executeWithTimeoutLimit (job intendedAt jobName) t jobName
                 else job intendedAt jobName)
      in case (awaited (fst run), snd run) of
           (Resolves r, d) \<Rightarrow>
             Some (\<lparr>success = True, result = Some r, error = None, duration = d,
                    timedOut = False\<rparr>, [])
         | (Rejects e, d) \<Rightarrow>
             (let msg = message_of e in
              if includes_str ''timed out'' msg then
                Some (\<lparr>success = False, result = None, error = Some msg, duration = d,
                       timedOut = True\<rparr>,
                      if has_onTimeout options then [d] else [])
              else
                Some (\<lparr>success = False, result = None, error = Some msg, duration = d,
                       timedOut = False\<rparr>, []))
         | (_, d) \<Rightarrow> None)"

section \<open>SyncedCron: the history collection\<close>

text \<open>
  The history collection, as the class uses it: the documents, the unique index on
  \<open>{intendedAt, name}\<close> that \<open>initialize\<close> creates, and a counter for fresh ids. An
  insert that would break the unique index is rejected with the driver's code 11000.
  \<open>outage\<close> stands for any other failure of the store: while it is set, every
  operation throws it.
\<close>

record 'r JobHistory =
  h_id :: string
  h_name :: string
  h_intendedAt :: js_time
  startedAt :: js_time
  finishedAt :: "js_time option"
  h_result :: "'r option"
  h_error :: "string option"

record 'r collection =
  docs :: "'r JobHistory list"
  uniqueIndex :: bool
  id_counter :: nat
  outage :: "js_thrown option"

definition duplicate_key :: js_thrown where
  "duplicate_key = ErrorVal (Some 11000) ''E11000 duplicate key error collection'' None"

definition insertAsync ::
  "'r collection \<Rightarrow> js_time \<Rightarrow> string \<Rightarrow> js_time \<Rightarrow> js_thrown + (string \<times> 'r collection)" where
  "insertAsync c intendedAt nm started =
     (case outage c of
        Some e \<Rightarrow> Inl e
      | None \<Rightarrow>
          if uniqueIndex c \<and> list_ex (\<lambda>d. h_intendedAt d = intendedAt \<and> h_name d = nm) (docs c)
          then Inl duplicate_key
          else
            (let newId = ''id'' @ show_nat (id_counter c);
                 doc = \<lparr>h_id = newId, h_name = nm, h_intendedAt = intendedAt,
                        startedAt = started, finishedAt = None, h_result = None,
                        h_error = None\<rparr>
             in Inr (newId, c\<lparr>docs := docs c @ [doc], id_counter := Suc (id_counter c)\<rparr>)))"

datatype 'r history_patch = SetResult js_time 'r | SetError js_time string

definition apply_patch :: "'r history_patch \<Rightarrow> 'r JobHistory \<Rightarrow> 'r JobHistory" where
  "apply_patch p d =
     (case p of
        SetResult t r \<Rightarrow> d\<lparr>finishedAt := Some t, h_result := Some r\<rparr>
      | SetError t m \<Rightarrow> d\<lparr>finishedAt := Some t, h_error := Some m\<rparr>)"

definition updateAsync ::
  "'r collection \<Rightarrow> string \<Rightarrow> 'r history_patch \<Rightarrow> js_thrown + 'r collection" where
  "updateAsync c docId p =
     (case outage c of
        Some e \<Rightarrow> Inl e
      | None \<Rightarrow> Inr (c\<lparr>docs := map (\<lambda>d. if h_id d = docId then apply_patch p d else d) (docs c)\<rparr>))"

text \<open>\<open>find({name}, {sort: {startedAt: -1}, limit})\<close> followed by \<open>fetchAsync()\<close>.\<close>

definition find_recent :: "'r collection \<Rightarrow> string \<Rightarrow> nat \<Rightarrow> js_thrown + 'r JobHistory list" where
  "find_recent c nm limit =
     (case outage c of
        Some e \<Rightarrow> Inl e
      | None \<Rightarrow>
          Inr (take limit (sort_key (\<lambda>d. - startedAt d) (filter (\<lambda>d. h_name d = nm) (docs c)))))"

section \<open>SyncedCron: the class\<close>

datatype log_event =
    Debug_SkippingElsewhere string
  | Debug_SkippingPaused string
  | Info_Starting string
  | Info_Finished string int
  | Info_Scheduled string js_time
  | Error_Exception string int string
  | Error_InOnErrorHandler string "string option"

datatype cron_event =
    Logged log_event
  | JobCalled js_time string
  | OnErrorHandlerCalled js_thrown js_time

datatype cron_error =
    JobAlreadyExistsError string
  | JobNotFoundError string
  | NotInitialized
  | ScheduleError sched_error
  | InvalidTimeValue
  | StoreError js_thrown

text \<open>
  The \<open>onError\<close> handler of a job gets the Error and the intended time; it returns
  normally (\<open>None\<close>) or throws.
\<close>

record 'r JobEntry =
  name :: string
  schedule :: Schedule
  job :: "js_time \<Rightarrow> string \<Rightarrow> 'r settle \<times> int"
  persist :: bool
  onError :: "(js_thrown \<Rightarrow> js_time \<Rightarrow> js_thrown option) option"
  timer :: "sj_state option"
  paused :: "bool option"

record 'r JobConfig =
  c_name :: string
  c_schedule :: Schedule
  c_job :: "js_time \<Rightarrow> string \<Rightarrow> 'r settle \<times> int"
  c_persist :: "bool option"
  c_onError :: "(js_thrown \<Rightarrow> js_time \<Rightarrow> js_thrown option) option"

record 'r SyncedCron =
  utc :: bool
  entries :: "(string \<times> 'r JobEntry) list"
  running :: bool
  collection :: "'r collection option"
  events :: "cron_event list"

definition emit :: "cron_event \<Rightarrow> 'r SyncedCron \<Rightarrow> 'r SyncedCron" where
  "emit ev s = s\<lparr>events := events s @ [ev]\<rparr>"

text \<open>The test of the \<open>catch\<close> around the insert: an object whose \<open>code\<close> is 11000.\<close>

definition is_duplicate_key :: "js_thrown \<Rightarrow> bool" where
  "is_duplicate_key e =
     (case e of ErrorVal c m st \<Rightarrow> c = Some 11000 | OtherVal v st \<Rightarrow> False)"

text \<open>
  The \<open>catch\<close> block of \<open>executeJob\<close>: log \<open>error.stack || error.message\<close>, call the
  handler with the Error (what it throws is logged and dropped: its stack when it is an
  Error, its rendering otherwise), write \<open>error.stack || error.message\<close> to the history
  document when there is one.
\<close>

definition handler_error_text :: "js_thrown \<Rightarrow> string option" where
  "handler_error_text e = (case e of ErrorVal c m st \<Rightarrow> st | OtherVal s st \<Rightarrow> Some s)"

definition job_failed ::
  "'r SyncedCron \<Rightarrow> 'r collection \<Rightarrow> 'r JobEntry \<Rightarrow> js_time \<Rightarrow> string option \<Rightarrow> js_thrown
     \<Rightarrow> int \<Rightarrow> js_time \<Rightarrow> 'r SyncedCron \<times> (js_thrown + unit)" where
  "job_failed s coll entry intendedAt jobHistoryId e dur now =
     (let error = as_error e;
          text = stack_or_message error;
          s1 = emit (Logged (Error_Exception (name entry) dur text)) s;
          s2 = (case onError entry of
                  None \<Rightarrow> s1
                | Some handler \<Rightarrow>
                    (case handler error intendedAt of
                       None \<Rightarrow> emit (OnErrorHandlerCalled error intendedAt) s1
                     | Some handlerError \<Rightarrow>
                         emit (Logged (Error_InOnErrorHandler (name entry)
                                         (handler_error_text handlerError)))
                           (emit (OnErrorHandlerCalled error intendedAt) s1)))
      in case jobHistoryId of
           None \<Rightarrow> (s2, Inr ())
         | Some docId \<Rightarrow>
             if docId = [] then (s2, Inr ())
             else (case updateAsync coll docId (SetError now text) of
                     Inl ue \<Rightarrow> (s2, Inl ue)
                   | Inr coll' \<Rightarrow> (s2\<lparr>collection := Some coll'\<rparr>, Inr ())))"

text \<open>
  \<open>executeJob(entry, intendedAt)\<close>, started at clock reading \<open>now\<close>. The result is the
  instance afterwards and how the promise settles: \<open>Inr ()\<close> fulfilled, \<open>Inl e\<close>
  rejected; \<open>None\<close> when the job never settles.
\<close>

definition executeJob ::
  "'r SyncedCron \<Rightarrow> 'r JobEntry \<Rightarrow> js_time \<Rightarrow> js_time
     \<Rightarrow> ('r SyncedCron \<times> (js_thrown + unit)) option" where
  "executeJob s entry intendedAt now =
     (case collection s of
        None \<Rightarrow>
          Some (s, Inl (ErrorVal None ''SyncedCron not initialized. Call start() first.'' None))
      | Some coll \<Rightarrow>
          (case (if persist entry
                 then (case insertAsync coll intendedAt (name entry) now of
                         Inl e \<Rightarrow> Inl e
                       | Inr (newId, coll') \<Rightarrow> Inr (Some newId, coll'))
                 else Inr (None, coll)) of
             Inl e \<Rightarrow>
               if is_duplicate_key e
               then Some (emit (Logged (Debug_SkippingElsewhere (name entry))) s, Inr ())
               else Some (s, Inl e)
           | Inr (jobHistoryId, coll1) \<Rightarrow>
               (let s1 = emit (JobCalled intendedAt (name entry))
                           (emit (Logged (Info_Starting (name entry)))
                              (s\<lparr>collection := Some coll1\<rparr>))
                in case (awaited (fst (job entry intendedAt (name entry))),
                         snd (job entry intendedAt (name entry))) of
                     (Rejects e, d) \<Rightarrow>
                       Some (job_failed s1 coll1 entry intendedAt jobHistoryId e d (now + d))
                   | (Resolves output, d) \<Rightarrow>
                       (let s2 = emit (Logged (Info_Finished (name entry) d)) s1 in
                        case jobHistoryId of
                          None \<Rightarrow> Some (s2, Inr ())
                        | Some docId \<Rightarrow>
                            if docId = [] then Some (s2, Inr ())
                            else (case updateAsync coll1 docId (SetResult (now + d) output) of
                                    Inr coll2 \<Rightarrow> Some (s2\<lparr>collection := Some coll2\<rparr>, Inr ())
                                  | Inl ue \<Rightarrow>
                                      Some (job_failed s2 coll1 entry intendedAt jobHistoryId
                                              ue d (now + d))))
                   | (_, d) \<Rightarrow> None)))"

text \<open>
  \<open>scheduleEntry(entry)\<close>: the job timer is started first; the next run time is then
  computed once more for the log line, outside any \<open>try\<close>. \<open>toISOString()\<close> of an
  Invalid Date throws a RangeError. The three clock readings are those of
  \<open>scheduleJob\<close> and of the second \<open>getNextScheduledTime\<close>.
\<close>

definition set_timer :: "string \<Rightarrow> sj_state option \<Rightarrow> 'r SyncedCron \<Rightarrow> 'r SyncedCron" where
  "set_timer nm t s =
     s\<lparr>entries := map (\<lambda>(k, e). if k = nm then (k, e\<lparr>timer := t\<rparr>) else (k, e)) (entries s)\<rparr>"

definition scheduleEntry ::
  "HostZone \<Rightarrow> 'r SyncedCron \<Rightarrow> 'r JobEntry \<Rightarrow> js_time \<Rightarrow> js_time \<Rightarrow> js_time
     \<Rightarrow> 'r SyncedCron \<times> (cron_error + unit)" where
  "scheduleEntry tz s entry now1 now2 now3 =
     (if (case paused entry of None \<Rightarrow> False | Some p \<Rightarrow> p)
      then (emit (Logged (Debug_SkippingPaused (name entry))) s, Inr ())
      else
        (let s1 = set_timer (name entry)
                    (Some (scheduleJob tz (schedule entry) (Some (utc s)) now1 now2)) s
         in case getNextScheduledTime tz (schedule entry) (Some (utc s)) now3 of
              Inl e \<Rightarrow> (s1, Inl (ScheduleError e))
            | Inr None \<Rightarrow> (s1, Inl InvalidTimeValue)
            | Inr (Some nextRun) \<Rightarrow>
                (emit (Logged (Info_Scheduled (name entry) nextRun)) s1, Inr ())))"

text \<open>\<open>add(config)\<close>: the entries are a Map, kept in insertion order.\<close>

definition add ::
  "HostZone \<Rightarrow> 'r SyncedCron \<Rightarrow> 'r JobConfig \<Rightarrow> js_time \<Rightarrow> js_time \<Rightarrow> js_time
     \<Rightarrow> 'r SyncedCron \<times> (cron_error + unit)" where
  "add tz s config now1 now2 now3 =
     (if map_of (entries s) (c_name config) \<noteq> None
      then (s, Inl (JobAlreadyExistsError (c_name config)))
      else
        (let entry = \<lparr>name = c_name config, schedule = c_schedule config, job = c_job config,
                      persist = (case c_persist config of None \<Rightarrow> True | Some p \<Rightarrow> p),
                      onError = c_onError config, timer = None, paused = None\<rparr>;
             s1 = s\<lparr>entries := entries s @ [(c_name config, entry)]\<rparr>
         in if running s1 then scheduleEntry tz s1 entry now1 now2 now3 else (s1, Inr ())))"

text \<open>\<open>nextScheduledAt(jobName)\<close>: \<open>None\<close> is \<open>undefined\<close>.\<close>

definition nextScheduledAt :: "HostZone \<Rightarrow> 'r SyncedCron \<Rightarrow> string \<Rightarrow> js_time \<Rightarrow> js_time option option" where
  "nextScheduledAt tz s jobName now =
     (case map_of (entries s) jobName of
        None \<Rightarrow> None
      | Some entry \<Rightarrow>
          (case getNextScheduledTime tz (schedule entry) (Some (utc s)) now of
             Inl e \<Rightarrow> None
           | Inr d \<Rightarrow> Some d))"

record JobStats =
  totalRuns :: nat
  successCount :: nat
  errorCount :: nat
  averageDuration :: "rat option"

record LastRun =
  lr_startedAt :: js_time
  lr_finishedAt :: "js_time option"
  lr_success :: bool
  lr_duration :: "int option"
  lr_error :: "string option"

record JobStatus =
  js_name :: string
  isScheduled :: bool
  isPaused :: bool
  nextRunAt :: "js_time option option"
  lastRun :: "LastRun option"
  stats :: JobStats

text \<open>Truthiness of the optional string \<open>error\<close>: present and not empty.\<close>

definition has_error :: "'r JobHistory \<Rightarrow> bool" where
  "has_error r = (case h_error r of None \<Rightarrow> False | Some m \<Rightarrow> m \<noteq> [])"

definition run_duration :: "'r JobHistory \<Rightarrow> int" where
  "run_duration r = (case finishedAt r of None \<Rightarrow> 0 | Some f \<Rightarrow> f - startedAt r)"

text \<open>
  \<open>averageDuration\<close> is the exact quotient here; the program holds the double nearest
  to it.
\<close>

definition job_stats :: "'r JobHistory list \<Rightarrow> JobStats" where
  "job_stats recentRuns =
     (let completedRuns = filter (\<lambda>r. finishedAt r \<noteq> None) recentRuns in
      \<lparr>totalRuns = length recentRuns,
       successCount = length (filter (\<lambda>r. \<not> has_error r) recentRuns),
       errorCount = length (filter has_error recentRuns),
       averageDuration =
         (if length completedRuns > 0
          then Some (of_int (foldl (\<lambda>sum r. sum + run_duration r) 0 completedRuns)
                       / of_nat (length completedRuns))
          else None)\<rparr>)"

definition last_run :: "'r JobHistory list \<Rightarrow> LastRun option" where
  "last_run recentRuns =
     (case recentRuns of
        [] \<Rightarrow> None
      | r # rest \<Rightarrow>
          Some \<lparr>lr_startedAt = startedAt r, lr_finishedAt = finishedAt r,
                lr_success = (\<not> has_error r),
                lr_duration = map_option (\<lambda>f. f - startedAt r) (finishedAt r),
                lr_error = h_error r\<rparr>)"

text \<open>\<open>getJobStatus(jobName)\<close>: \<open>Inr None\<close> is \<open>null\<close>.\<close>

definition getJobStatus ::
  "HostZone \<Rightarrow> 'r SyncedCron \<Rightarrow> string \<Rightarrow> js_time \<Rightarrow> cron_error + JobStatus option" where
  "getJobStatus tz s jobName now =
     (case map_of (entries s) jobName of
        None \<Rightarrow> Inr None
      | Some entry \<Rightarrow>
          (case collection s of
             None \<Rightarrow> Inl NotInitialized
           | Some coll \<Rightarrow>
               (case find_recent coll jobName 100 of
                  Inl e \<Rightarrow> Inl (StoreError e)
                | Inr recentRuns \<Rightarrow>
                    Inr (Some \<lparr>js_name = jobName,
                               isScheduled = (running s \<and> timer entry \<noteq> None),
                               isPaused = (case paused entry of None \<Rightarrow> False | Some p \<Rightarrow> p),
                               nextRunAt = nextScheduledAt tz s jobName now,
                               lastRun = last_run recentRuns,
                               stats = job_stats recentRuns\<rparr>))))"

section \<open>Notions of the specification, and example inputs\<close>

text \<open>
  An instance whose history already holds the firing of job "report" at time 1000, started
  by another instance and not finished; and a job configuration with an ill-formed cron
  expression, for an instance that has no jobs yet.
\<close>

definition w_entry :: "string JobEntry" where
  "w_entry =
     \<lparr>name = ''report'', schedule = Every \<lparr>every = 1, unit = Seconds, aligned = None\<rparr>,
      job = (\<lambda>t n. (Resolves ''ok'', 3)), persist = True,
      onError = Some (\<lambda>e t. None), timer = None, paused = None\<rparr>"

definition w_coll :: "string collection" where
  "w_coll =
     \<lparr>docs = [\<lparr>h_id = ''id0'', h_name = ''report'', h_intendedAt = 1000, startedAt = 1002,
               finishedAt = None, h_result = None, h_error = None\<rparr>],
      uniqueIndex = True, id_counter = 1, outage = None\<rparr>"

definition w_cron :: "string SyncedCron" where
  "w_cron =
     \<lparr>utc = True, entries = [(''report'', w_entry)], running = True,
      collection = Some w_coll, events = []\<rparr>"

definition w_config :: "string JobConfig" where
  "w_config =
     \<lparr>c_name = ''bad'', c_schedule = Cron ''invalid'', c_job = (\<lambda>t n. (Resolves ''ok'', 3)),
      c_persist = None, c_onError = None\<rparr>"

definition w_idle :: "string SyncedCron" where
  "w_idle =
     \<lparr>utc = True, entries = [], running = False, collection = Some w_coll, events = []\<rparr>"

text \<open>
  A started instance whose history holds three firings of "report", the second of them
  not finished, and one run of another job.
\<close>

definition w_row :: "string JobHistory" where
  "w_row = \<lparr>h_id = ''id1'', h_name = ''report'', h_intendedAt = 2000, startedAt = 2000,
            finishedAt = None, h_result = None, h_error = None\<rparr>"

definition w_history :: "string collection" where
  "w_history =
     \<lparr>docs = [\<lparr>h_id = ''id0'', h_name = ''report'', h_intendedAt = 1000, startedAt = 1000,
               finishedAt = Some 1004, h_result = Some ''ok'', h_error = None\<rparr>,
             w_row,
             \<lparr>h_id = ''id2'', h_name = ''report'', h_intendedAt = 3000, startedAt = 3000,
               finishedAt = Some 3006, h_result = None, h_error = Some ''boom''\<rparr>,
             \<lparr>h_id = ''id3'', h_name = ''cleanup'', h_intendedAt = 4000, startedAt = 4000,
               finishedAt = Some 4001, h_result = Some ''ok'', h_error = None\<rparr>],
      uniqueIndex = True, id_counter = 4, outage = None\<rparr>"

definition w_started :: "string SyncedCron" where
  "w_started =
     \<lparr>utc = True, entries = [(''report'', w_entry)], running = True,
      collection = Some w_history, events = []\<rparr>"

text \<open>
  The components of an instant in the chosen zone: UTC when \<open>useUTC\<close> is set, the
  zone of the host otherwise. Months count from 1 here, as in a cron expression.
\<close>

definition zone_minutes :: "HostZone \<Rightarrow> bool \<Rightarrow> js_time \<Rightarrow> int" where
  "zone_minutes tz useUTC t = (if useUTC then getUTCMinutes t else getMinutes tz t)"

definition zone_hours :: "HostZone \<Rightarrow> bool \<Rightarrow> js_time \<Rightarrow> int" where
  "zone_hours tz useUTC t = (if useUTC then getUTCHours t else getHours tz t)"

definition zone_date :: "HostZone \<Rightarrow> bool \<Rightarrow> js_time \<Rightarrow> int" where
  "zone_date tz useUTC t = (if useUTC then getUTCDate t else getDate tz t)"

definition zone_month :: "HostZone \<Rightarrow> bool \<Rightarrow> js_time \<Rightarrow> int" where
  "zone_month tz useUTC t = (if useUTC then getUTCMonth t + 1 else getMonth tz t + 1)"

definition zone_weekday :: "HostZone \<Rightarrow> bool \<Rightarrow> js_time \<Rightarrow> int" where
  "zone_weekday tz useUTC t = (if useUTC then getUTCDay t else getDay tz t)"

text \<open>
  The day rule of cron, in the words of the specification. A day field is specified when
  \<open>L\<close> is set or its set of values is not empty and smaller than the full range, the
  weekday field when its set is not empty and smaller than the full range. \<open>L\<close>
  matches when the next day, which is the instant with the day of the month of the host
  advanced by one, lies in another month of the chosen zone or beyond the range of Date.
\<close>

definition next_day :: "HostZone \<Rightarrow> js_time \<Rightarrow> js_time option" where
  "next_day tz t = TimeClip (setDate tz t (getDate tz t + 1))"


definition day_specified :: "CronFields \<Rightarrow> bool" where
  "day_specified cf =
     (isLastDayOfMonth cf \<or> (dayOfMonth cf \<noteq> [] \<and> length (dayOfMonth cf) < 31))"

definition weekday_specified :: "CronFields \<Rightarrow> bool" where
  "weekday_specified cf = (dayOfWeek cf \<noteq> [] \<and> length (dayOfWeek cf) < 7)"

definition day_of_month_matches :: "HostZone \<Rightarrow> CronFields \<Rightarrow> js_time \<Rightarrow> bool \<Rightarrow> bool" where
  "day_of_month_matches tz cf t useUTC =
     (if isLastDayOfMonth cf
      then (case next_day tz t of
              None \<Rightarrow> True
            | Some t' \<Rightarrow> zone_month tz useUTC t' \<noteq> zone_month tz useUTC t)
      else dayOfMonth cf = [] \<or> zone_date tz useUTC t \<in> set (dayOfMonth cf))"

definition weekday_matches :: "HostZone \<Rightarrow> CronFields \<Rightarrow> js_time \<Rightarrow> bool \<Rightarrow> bool" where
  "weekday_matches tz cf t useUTC =
     (dayOfWeek cf = [] \<or> zone_weekday tz useUTC t \<in> set (dayOfWeek cf))"

text \<open>The fields of the expressions "0 9 30 2 *", "0 9 15 * MON" and "*/5 * * * *".\<close>

definition cf_every5 :: CronFields where
  "cf_every5 = \<lparr>minute = [0, 5, 10, 15, 20, 25, 30, 35, 40, 45, 50, 55],
       hour = [0, 1, 2, 3, 4, 5, 6, 7, 8, 9, 10, 11, 12, 13, 14, 15, 16, 17, 18, 19, 20, 21,
               22, 23],
       dayOfMonth = [1, 2, 3, 4, 5, 6, 7, 8, 9, 10, 11, 12, 13, 14, 15, 16, 17, 18, 19, 20,
                     21, 22, 23, 24, 25, 26, 27, 28, 29, 30, 31],
       month = [1, 2, 3, 4, 5, 6, 7, 8, 9, 10, 11, 12],
       dayOfWeek = [0, 1, 2, 3, 4, 5, 6], isLastDayOfMonth = False\<rparr>"


definition cf_feb30 :: CronFields where
  "cf_feb30 = \<lparr>minute = [0], hour = [9], dayOfMonth = [30], month = [2],
       dayOfWeek = [0, 1, 2, 3, 4, 5, 6], isLastDayOfMonth = False\<rparr>"

definition cf_15_or_monday :: CronFields where
  "cf_15_or_monday = \<lparr>minute = [0], hour = [9], dayOfMonth = [15],
       month = [1, 2, 3, 4, 5, 6, 7, 8, 9, 10, 11, 12],
       dayOfWeek = [1], isLastDayOfMonth = False\<rparr>"

text \<open>The mean duration of history rows, as a rational number.\<close>

definition mean_duration :: "'r JobHistory list \<Rightarrow> rat option" where
  "mean_duration rows =
     (if rows = [] then None
      else Some (of_int (sum_list (map run_duration rows)) / of_nat (length rows)))"

text \<open>
  For the recurring timer: the limit of consecutive failures with its default, the backoff
  after the f-th failure, a \<open>getNextTime\<close> each of whose calls fails validation (it
  throws, or returns something that is not a Date, or the Invalid Date, or a time not
  strictly after now), and readers of the trace.
\<close>

definition max_failures :: "TimerOptions \<Rightarrow> int" where
  "max_failures opts = (case maxConsecutiveFailures opts of None \<Rightarrow> 3 | Some m \<Rightarrow> m)"

definition backoff :: "nat \<Rightarrow> int" where
  "backoff f = min (10 * 2 ^ (f - 1)) 60000"

definition fails_validation :: "'e next_result \<Rightarrow> js_time \<Rightarrow> bool" where
  "fails_validation r now =
     (case r of
        Throws e \<Rightarrow> True
      | ReturnsNonDate \<Rightarrow> True
      | ReturnsDate None \<Rightarrow> True
      | ReturnsDate (Some t) \<Rightarrow> \<not> now < t)"

definition always_fails :: "(nat \<Rightarrow> js_time \<Rightarrow> 'e next_result) \<Rightarrow> bool" where
  "always_fails g = (\<forall>k t. fails_validation (g k t) t)"

fun armed_delay :: "'e tm_event \<Rightarrow> int list" where
  "armed_delay (TimerArmed d) = [d]"
| "armed_delay ev = []"

definition armed_delays :: "'e tm_event list \<Rightarrow> int list" where
  "armed_delays tr = concat (map armed_delay tr)"

fun is_OnError :: "'e tm_event \<Rightarrow> bool" where
  "is_OnError (OnErrorCalled e) = True"
| "is_OnError ev = False"

fun is_OnCircuitBreak :: "'e tm_event \<Rightarrow> bool" where
  "is_OnCircuitBreak (OnCircuitBreakCalled e) = True"
| "is_OnCircuitBreak ev = False"

fun is_progress :: "'e tm_event \<Rightarrow> bool" where
  "is_progress (OnScheduleCalled t) = True"
| "is_progress (ExecuteCalled t) = True"
| "is_progress ev = False"

definition w_opts :: TimerOptions where
  "w_opts =
     \<lparr>maxConsecutiveFailures = None, has_onCircuitBreak = True, has_onSchedule = True,
      has_onError = True\<rparr>"

definition w_aligned30 :: Schedule where
  "w_aligned30 = Every \<lparr>every = 30, unit = Seconds, aligned = Some True\<rparr>"

section \<open>Properties of the job executor\<close>

text \<open>
  C4. A job that fails with an ordinary error whose message happens to contain the words
  "timed out", run with no timeout configured, is reported as timed out and \<open>onTimeout\<close>
  is called: the executor recognises a timeout by the text of the message, not by the
  expiry of its own timer.
\<close>

theorem executeWithTimeout_ordinary_error_reported_as_timeout:
  "executeWithTimeout
     (\<lambda>t n. (Rejects (ErrorVal None ''upstream request timed out'' stack), 5)) 0 ''sync''
     \<lparr>timeout = None, has_onTimeout = True\<rparr>
   = Some (\<lparr>success = False, result = None, error = Some ''upstream request timed out'',
            duration = 5, timedOut = True\<rparr>, [5])"
  by (simp add: executeWithTimeout_def message_of_def awaited_def)

section \<open>Properties of the interval scheduler\<close>

text \<open>
  C5. For the accepted schedule \<open>{every: 30, unit: "seconds", aligned: true}\<close>, in UTC
  mode, the next instant computed from 2025-01-15T10:20:45.000Z is
  2025-01-15T10:20:30.000Z, which is before the starting instant: aligned seconds are
  counted from the start of the minute, the current second having been zeroed first.
\<close>

theorem aligned_seconds_next_not_after_from:
  "getNextScheduledTime (fixed_zone 0) (Every \<lparr>every = 30, unit = Seconds, aligned = Some True\<rparr>)
     (Some True) 1736936445000 = Inr (Some 1736936430000)
   \<and> (1736936430000 :: int) < 1736936445000"
  by code_simp


section \<open>Properties of the coordinator and the registry\<close>

text \<open>
  C1. A firing of a job with \<open>persist = true\<close> whose history insert is rejected with the
  duplicate-key code 11000 is skipped: \<open>executeJob\<close> is fulfilled, the only thing it
  does is the debug log line (the job is not called, \<open>onError\<close> is not called), and the
  collection and the entries are unchanged.
\<close>

theorem executeJob_duplicate_key_skips:
  assumes "persist entry" and "collection s = Some coll"
    and "insertAsync coll intendedAt (name entry) now = Inl (ErrorVal (Some 11000) m stack)"
  shows "\<exists>s'. executeJob s entry intendedAt now = Some (s', Inr ())
           \<and> events s' = events s @ [Logged (Debug_SkippingElsewhere (name entry))]
           \<and> collection s' = collection s \<and> entries s' = entries s"
  using assms by (simp add: executeJob_def is_duplicate_key_def emit_def)

theorem executeJob_duplicate_key_skips_witness:
  "persist w_entry \<and> collection w_cron = Some w_coll
   \<and> insertAsync w_coll 1000 (name w_entry) 1005
       = Inl (ErrorVal (Some 11000) ''E11000 duplicate key error collection'' None)
   \<and> (\<exists>s'. executeJob w_cron w_entry 1000 1005 = Some (s', Inr ())
           \<and> events s' = [Logged (Debug_SkippingElsewhere ''report'')]
           \<and> collection s' = Some w_coll)"
proof -
  have a: "persist w_entry" by (simp add: w_entry_def)
  have b: "collection w_cron = Some w_coll" by (simp add: w_cron_def)
  have c: "insertAsync w_coll 1000 (name w_entry) 1005
             = Inl (ErrorVal (Some 11000) ''E11000 duplicate key error collection'' None)"
    by (simp add: insertAsync_def w_coll_def w_entry_def duplicate_key_def)
  from executeJob_duplicate_key_skips[OF a b c] a b c show ?thesis
    by (auto simp: w_entry_def w_cron_def)
qed

lemma parse_invalid: "parseCronExpression ''invalid'' = Inl (InvalidCronExpression 1)"
  by code_simp


text \<open>
  C9, as stated, fails: on an instance that is not running, \<open>add\<close> of a job whose cron
  expression is the ill-formed "invalid" returns normally and the job is registered.
\<close>

theorem add_accepts_ill_formed_cron:
  "parseCronExpression ''invalid'' = Inl (InvalidCronExpression 1)
   \<and> snd (add (fixed_zone 0) w_idle w_config 0 0 0) = Inr ()
   \<and> map (\<lambda>(k, e). (k, schedule e, timer e))
        (entries (fst (add (fixed_zone 0) w_idle w_config 0 0 0)))
        = [(''bad'', Cron ''invalid'', None)]"
  using parse_invalid by (simp add: add_def w_idle_def w_config_def)

text \<open>
  C9, amended. \<open>add\<close> does not parse the schedule. On an instance that is not running,
  for every job configuration whose name is not registered yet, whatever its schedule
  is, \<open>add\<close> returns normally: the job is registered under its name with the schedule
  as given and without a timer, the other jobs are as before, nothing is logged, and the
  instance is still not running. No parse error is reported at that time.
\<close>

theorem add_on_idle_instance:
  assumes "map_of (entries s) (c_name config) = None" and "\<not> running s"
  shows "\<exists>s' entry. add tz s config n1 n2 n3 = (s', Inr ())
        \<and> map_of (entries s') (c_name config) = Some entry
        \<and> name entry = c_name config \<and> schedule entry = c_schedule config
        \<and> timer entry = None \<and> paused entry = None
        \<and> (\<forall>k. k \<noteq> c_name config \<longrightarrow> map_of (entries s') k = map_of (entries s) k)
        \<and> events s' = events s \<and> \<not> running s' \<and> collection s' = collection s"
  using assms by (auto simp: add_def map_add_def split: option.splits)

theorem add_on_idle_instance_witness:
  "map_of (entries w_idle) (c_name w_config) = None \<and> \<not> running w_idle
   \<and> c_schedule w_config = Cron ''invalid''
   \<and> parseCronExpression ''invalid'' = Inl (InvalidCronExpression 1)
   \<and> (\<exists>s' entry. add (fixed_zone 0) w_idle w_config 0 0 0 = (s', Inr ())
          \<and> map_of (entries s') ''bad'' = Some entry
          \<and> schedule entry = Cron ''invalid'' \<and> timer entry = None \<and> events s' = [])"
proof -
  have a: "map_of (entries w_idle) (c_name w_config) = None" by (simp add: w_idle_def)
  have r: "\<not> running w_idle" by (simp add: w_idle_def)
  have c: "c_schedule w_config = Cron ''invalid''" "c_name w_config = ''bad''"
    by (simp_all add: w_config_def)
  have e: "events w_idle = []" by (simp add: w_idle_def)
  from add_on_idle_instance[OF a r, of "fixed_zone 0" 0 0 0]
  obtain s' entry where "add (fixed_zone 0) w_idle w_config 0 0 0 = (s', Inr ())"
    "map_of (entries s') (c_name w_config) = Some entry"
    "schedule entry = c_schedule w_config" "timer entry = None" "events s' = events w_idle"
    by blast
  then have "\<exists>s' entry. add (fixed_zone 0) w_idle w_config 0 0 0 = (s', Inr ())
          \<and> map_of (entries s') ''bad'' = Some entry
          \<and> schedule entry = Cron ''invalid'' \<and> timer entry = None \<and> events s' = []"
    using c e by auto
  then show ?thesis using a r c(1) parse_invalid by blast
qed

lemma foldl_sum: "foldl (\<lambda>sum r. sum + f r) (a::int) xs = a + sum_list (map f xs)"
  by (induction xs arbitrary: a) auto

lemma job_stats_mean:
  "averageDuration (job_stats rows) = mean_duration (filter (\<lambda>r. finishedAt r \<noteq> None) rows)"
  by (simp add: job_stats_def mean_duration_def foldl_sum Let_def)

lemma length_filter_split:
  "length (filter P xs) = length (filter (\<lambda>r. Q r \<and> P r) xs) + length (filter (\<lambda>r. \<not> Q r \<and> P r) xs)"
  by (induction xs) auto

text \<open>
  C8, as stated, fails: with a single history row that has started and not finished, the
  counters are \<open>totalRuns = 1\<close> and \<open>successCount = 1\<close>. The unfinished row is counted
  as a run and as a success.
\<close>

theorem getJobStatus_counts_unfinished_row:
  "map_sum id (map_option stats) (getJobStatus (fixed_zone 0) w_cron ''report'' 2000)
     = Inr (Some \<lparr>totalRuns = 1, successCount = 1, errorCount = 0, averageDuration = None\<rparr>)"
  by (simp add: getJobStatus_def w_cron_def w_entry_def w_coll_def find_recent_def
        job_stats_def has_error_def)

text \<open>
  C8, amended. For a job present in the registry of an instance whose history collection
  is initialised and whose store answers the query, \<open>getJobStatus\<close> builds \<open>lastRun\<close>
  and \<open>stats\<close> from the at most 100 history rows of that name with the latest
  \<open>startedAt\<close>, newest first. \<open>totalRuns\<close> is the number of these rows,
  \<open>successCount\<close> the number of them without an error and \<open>errorCount\<close> the number
  with one, finished or not; only \<open>averageDuration\<close> is taken over the rows that have
  \<open>finishedAt\<close>: it is their mean duration, and absent when there is none. A row that
  has started and not finished counts in \<open>totalRuns\<close>, and in \<open>successCount\<close> when
  it has no error, in \<open>errorCount\<close> when it has one.
\<close>

theorem getJobStatus_stats:
  assumes "map_of (entries s) jobName = Some entry" and "collection s = Some coll"
    and "outage coll = None"
  shows "\<exists>st rows. getJobStatus tz s jobName now = Inr (Some st)
      \<and> rows = take 100 (sort_key (\<lambda>d. - startedAt d) (filter (\<lambda>d. h_name d = jobName) (docs coll)))
      \<and> length rows \<le> 100
      \<and> sorted (map (\<lambda>d. - startedAt d) rows)
      \<and> list_all (\<lambda>d. h_name d = jobName) rows
      \<and> lastRun st = last_run rows
      \<and> totalRuns (stats st) = length rows
      \<and> successCount (stats st) = length (filter (\<lambda>r. \<not> has_error r) rows)
      \<and> errorCount (stats st) = length (filter has_error rows)
      \<and> successCount (stats st) + errorCount (stats st) = totalRuns (stats st)
      \<and> averageDuration (stats st) = mean_duration (filter (\<lambda>r. finishedAt r \<noteq> None) rows)
      \<and> totalRuns (stats st)
          = length (filter (\<lambda>r. finishedAt r \<noteq> None) rows)
            + length (filter (\<lambda>r. finishedAt r = None) rows)
      \<and> successCount (stats st)
          = length (filter (\<lambda>r. finishedAt r \<noteq> None \<and> \<not> has_error r) rows)
            + length (filter (\<lambda>r. finishedAt r = None \<and> \<not> has_error r) rows)
      \<and> errorCount (stats st)
          = length (filter (\<lambda>r. finishedAt r \<noteq> None \<and> has_error r) rows)
            + length (filter (\<lambda>r. finishedAt r = None \<and> has_error r) rows)"
proof -
  define rows where "rows = take 100 (sort_key (\<lambda>d. - startedAt d) (filter (\<lambda>d. h_name d = jobName) (docs coll)))"
  have g: "getJobStatus tz s jobName now =
      Inr (Some \<lparr>js_name = jobName, isScheduled = (running s \<and> timer entry \<noteq> None),
                 isPaused = (case paused entry of None \<Rightarrow> False | Some p \<Rightarrow> p),
                 nextRunAt = nextScheduledAt tz s jobName now,
                 lastRun = last_run rows, stats = job_stats rows\<rparr>)"
    using assms by (simp add: getJobStatus_def find_recent_def rows_def)
  have l: "length rows \<le> 100" by (simp add: rows_def)
  have so: "sorted (map (\<lambda>d. - startedAt d) rows)"
    unfolding rows_def by (simp add: take_map[symmetric] sorted_wrt_take)
  have "set rows \<subseteq> set (filter (\<lambda>d. h_name d = jobName) (docs coll))"
    unfolding rows_def using set_take_subset[of 100] by fastforce
  then have na: "list_all (\<lambda>d. h_name d = jobName) rows"
    by (auto simp: list_all_iff)
  have cnt: "length (filter (\<lambda>r. \<not> has_error r) rows) + length (filter has_error rows) = length rows"
    using sum_length_filter_compl[of has_error rows] by simp
  have t: "length rows = length (filter (\<lambda>r. finishedAt r \<noteq> None) rows)
            + length (filter (\<lambda>r. finishedAt r = None) rows)"
    using sum_length_filter_compl[of "\<lambda>r. finishedAt r \<noteq> None" rows] by simp
  have sc: "length (filter (\<lambda>r. \<not> has_error r) rows)
       = length (filter (\<lambda>r. finishedAt r \<noteq> None \<and> \<not> has_error r) rows)
            + length (filter (\<lambda>r. finishedAt r = None \<and> \<not> has_error r) rows)"
    using length_filter_split[of "\<lambda>r. \<not> has_error r" rows "\<lambda>r. finishedAt r \<noteq> None"] by simp
  have ec: "length (filter has_error rows)
       = length (filter (\<lambda>r. finishedAt r \<noteq> None \<and> has_error r) rows)
            + length (filter (\<lambda>r. finishedAt r = None \<and> has_error r) rows)"
    using length_filter_split[of has_error rows "\<lambda>r. finishedAt r \<noteq> None"] by simp
  have st: "totalRuns (job_stats rows) = length rows"
     "successCount (job_stats rows) = length (filter (\<lambda>r. \<not> has_error r) rows)"
     "errorCount (job_stats rows) = length (filter has_error rows)"
    by (simp_all add: job_stats_def Let_def)
  show ?thesis
    apply (rule exI[of _ "\<lparr>js_name = jobName, isScheduled = (running s \<and> timer entry \<noteq> None),
                 isPaused = (case paused entry of None \<Rightarrow> False | Some p \<Rightarrow> p),
                 nextRunAt = nextScheduledAt tz s jobName now,
                 lastRun = last_run rows, stats = job_stats rows\<rparr>"])
    apply (rule exI[of _ rows])
    using g l so na cnt t sc ec job_stats_mean[of rows]
    apply (simp add: st)
    apply (simp add: rows_def)
    done
qed

theorem getJobStatus_stats_witness:
  "map_of (entries w_started) ''report'' = Some w_entry
   \<and> collection w_started = Some w_history \<and> outage w_history = None
   \<and> map_sum id (map_option (\<lambda>st. (lastRun st, stats st)))
        (getJobStatus (fixed_zone 0) w_started ''report'' 5000)
       = Inr (Some (Some \<lparr>lr_startedAt = 3000, lr_finishedAt = Some 3006, lr_success = False,
                           lr_duration = Some 6, lr_error = Some ''boom''\<rparr>,
                    \<lparr>totalRuns = 3, successCount = 2, errorCount = 1,
                     averageDuration = Some 5\<rparr>))
   \<and> collection (w_started\<lparr>collection := Some (w_history\<lparr>docs := replicate 150 w_row\<rparr>)\<rparr>)
       = Some (w_history\<lparr>docs := replicate 150 w_row\<rparr>)
   \<and> (\<exists>st. getJobStatus (fixed_zone 0)
              (w_started\<lparr>collection := Some (w_history\<lparr>docs := replicate 150 w_row\<rparr>)\<rparr>)
              ''report'' 5000 = Inr (Some st)
          \<and> totalRuns (stats st) = 100 \<and> successCount (stats st) = 100
          \<and> averageDuration (stats st) = None)"
proof -
  have a: "map_of (entries w_started) ''report'' = Some w_entry" by (simp add: w_started_def)
  have b: "collection w_started = Some w_history" by (simp add: w_started_def)
  have c: "outage w_history = None" by (simp add: w_history_def)
  have srt: "take 100 (sort_key (\<lambda>d. - startedAt d) (filter (\<lambda>d. h_name d = ''report'') (docs w_history)))
      = [\<lparr>h_id = ''id2'', h_name = ''report'', h_intendedAt = 3000, startedAt = 3000,
           finishedAt = Some 3006, h_result = None, h_error = Some ''boom''\<rparr>,
         w_row,
         \<lparr>h_id = ''id0'', h_name = ''report'', h_intendedAt = 1000, startedAt = 1000,
           finishedAt = Some 1004, h_result = Some ''ok'', h_error = None\<rparr>]"
    by (simp add: w_history_def w_row_def)
  from getJobStatus_stats[OF a b c, of "fixed_zone 0" 5000]
  obtain st where st: "getJobStatus (fixed_zone 0) w_started ''report'' 5000 = Inr (Some st)"
    "lastRun st = last_run (take 100 (sort_key (\<lambda>d. - startedAt d)
                     (filter (\<lambda>d. h_name d = ''report'') (docs w_history))))"
    "totalRuns (stats st) = length (take 100 (sort_key (\<lambda>d. - startedAt d)
                     (filter (\<lambda>d. h_name d = ''report'') (docs w_history))))"
    "successCount (stats st) = length (filter (\<lambda>r. \<not> has_error r) (take 100 (sort_key (\<lambda>d. - startedAt d)
                     (filter (\<lambda>d. h_name d = ''report'') (docs w_history)))))"
    "errorCount (stats st) = length (filter has_error (take 100 (sort_key (\<lambda>d. - startedAt d)
                     (filter (\<lambda>d. h_name d = ''report'') (docs w_history)))))"
    "averageDuration (stats st) = mean_duration (filter (\<lambda>r. finishedAt r \<noteq> None)
                     (take 100 (sort_key (\<lambda>d. - startedAt d)
                     (filter (\<lambda>d. h_name d = ''report'') (docs w_history)))))"
    by blast
  have p1: "map_sum id (map_option (\<lambda>st. (lastRun st, stats st)))
        (getJobStatus (fixed_zone 0) w_started ''report'' 5000)
       = Inr (Some (Some \<lparr>lr_startedAt = 3000, lr_finishedAt = Some 3006, lr_success = False,
                           lr_duration = Some 6, lr_error = Some ''boom''\<rparr>,
                    \<lparr>totalRuns = 3, successCount = 2, errorCount = 1,
                     averageDuration = Some 5\<rparr>))"
    using st unfolding srt
    by (cases "stats st")
       (simp add: last_run_def has_error_def w_row_def mean_duration_def run_duration_def)
  let ?c = "w_history\<lparr>docs := replicate 150 w_row\<rparr>"
  let ?s = "w_started\<lparr>collection := Some ?c\<rparr>"
  have a': "map_of (entries ?s) ''report'' = Some w_entry" by (simp add: w_started_def)
  have b': "collection ?s = Some ?c" by simp
  have c': "outage ?c = None" by (simp add: w_history_def)
  from getJobStatus_stats[OF a' b' c', of "fixed_zone 0" 5000]
  obtain st' where st': "getJobStatus (fixed_zone 0) ?s ''report'' 5000 = Inr (Some st')"
    "totalRuns (stats st') = length (take 100 (sort_key (\<lambda>d. - startedAt d)
                     (filter (\<lambda>d. h_name d = ''report'') (docs ?c))))"
    "successCount (stats st') = length (filter (\<lambda>r. \<not> has_error r) (take 100 (sort_key (\<lambda>d. - startedAt d)
                     (filter (\<lambda>d. h_name d = ''report'') (docs ?c)))))"
    "averageDuration (stats st') = mean_duration (filter (\<lambda>r. finishedAt r \<noteq> None)
                     (take 100 (sort_key (\<lambda>d. - startedAt d)
                     (filter (\<lambda>d. h_name d = ''report'') (docs ?c)))))"
    by blast
  have f: "filter (\<lambda>d. h_name d = ''report'') (docs ?c) = replicate 150 w_row"
    by (simp add: w_row_def)
  have srt': "sort_key (\<lambda>d. - startedAt d) (replicate 150 w_row) = replicate 150 w_row"
    by (rule sort_key_id_if_sorted) (simp add: sorted_replicate)
  have tk: "take 100 (replicate 150 w_row) = replicate 100 w_row" by simp
  have p2: "totalRuns (stats st') = 100 \<and> successCount (stats st') = 100
          \<and> averageDuration (stats st') = None"
    using st'(2,3,4) unfolding f srt' tk
    by (simp add: has_error_def w_row_def mean_duration_def)
  show ?thesis using a b c p1 st'(1) p2 by simp
qed


section \<open>Properties of the job timer of the scheduler module\<close>

lemma scheduleNext_arms:
  assumes "\<not> isDone st"
  shows "\<exists>tid d cb. timers (scheduleNext tz sch u n1 n2 st) = timers st @ [(tid, d, cb)]
           \<and> \<not> isDone (scheduleNext tz sch u n1 n2 st)"
  using assms
  by (auto simp: scheduleNext_def sj_setTimeout_def Let_def split: sum.splits option.splits prod.splits)

lemma scheduleNext_error:
  assumes "\<not> isDone st" and "getNextScheduledTime tz sch u n1 = Inl e"
  shows "timers (scheduleNext tz sch u n1 n2 st) = timers st @ [(next_timer_id st, Some 5000, RetryCb)]"
  using assms by (simp add: scheduleNext_def sj_setTimeout_def)

lemma scheduleNext_past:
  assumes "\<not> isDone st" and "getNextScheduledTime tz sch u n1 = Inr (Some t)" and "t \<le> n2"
  shows "timers (scheduleNext tz sch u n1 n2 st) = timers st @ [(next_timer_id st, Some 100, RetryCb)]"
  using assms by (simp add: scheduleNext_def sj_setTimeout_def)

lemma sj_fire_calls_scheduleNext:
  assumes "\<not> isDone st" and "timers st = [tm]"
  shows "\<exists>st0. \<not> isDone st0 \<and> timers st0 = []
           \<and> sj_fire tz sch fn u c st = scheduleNext tz sch u (fst c) (snd c) st0"
proof -
  obtain tid d cb where tm: "tm = (tid, d, cb)" by (cases tm) auto
  show ?thesis
  proof (cases cb)
    case RetryCb
    then show ?thesis using assms tm
      by (intro exI[of _ "st\<lparr>timers := []\<rparr>"]) (simp add: sj_fire_def sj_callback_body_def)
  next
    case (FireCb nextRun needs)
    show ?thesis
    proof (cases needs)
      case True
      then show ?thesis using assms tm FireCb
        by (intro exI[of _ "st\<lparr>timers := []\<rparr>"]) (simp add: sj_fire_def sj_callback_body_def)
    next
      case False
      let ?ia = "date_update (\<lambda>t. setMilliseconds tz t 0) nextRun"
      let ?s1 = "st\<lparr>timers := [], trace := trace st @ [FnCalled ?ia]\<rparr>"
      let ?s2 = "if fn ?ia then ?s1\<lparr>trace := trace ?s1 @ [ErrorExecution]\<rparr> else ?s1"
      show ?thesis using assms tm FireCb False
        by (intro exI[of _ ?s2]) (simp add: sj_fire_def sj_callback_body_def Let_def)
    qed
  qed
qed

lemma sj_run_alive:
  assumes "\<not> isDone st" and "length (timers st) = 1"
  shows "\<not> isDone (sj_run tz sch fn u clocks st) \<and> length (timers (sj_run tz sch fn u clocks st)) = 1"
  using assms
proof (induction clocks arbitrary: st)
  case Nil
  then show ?case by simp
next
  case (Cons c clocks)
  from Cons.prems obtain tm where t: "timers st = [tm]"
    by (cases "timers st") auto
  from sj_fire_calls_scheduleNext[OF Cons.prems(1) t, of tz sch fn u c]
  obtain st0 where s0: "\<not> isDone st0" "timers st0 = []"
     "sj_fire tz sch fn u c st = scheduleNext tz sch u (fst c) (snd c) st0" by blast
  from scheduleNext_arms[OF s0(1), of tz sch u "fst c" "snd c"] s0
  have "\<not> isDone (sj_fire tz sch fn u c st)" "length (timers (sj_fire tz sch fn u c st)) = 1"
    by auto
  from Cons.IH[OF this] show ?case by simp
qed

lemma scheduleJob_alive:
  "\<not> isDone (scheduleJob tz sch u n1 n2) \<and> length (timers (scheduleJob tz sch u n1 n2)) = 1"
  using scheduleNext_arms[of "\<lparr>isDone = False, currentTimer = None, timers = [], next_timer_id = 0, trace = []\<rparr>" tz sch u n1 n2]
  by (auto simp: scheduleJob_def)

lemma sj_clear_then_fire:
  assumes "length (timers st) = 1"
  shows "isDone (sj_clear st) \<and> timers (sj_fire tz sch fn u c (sj_clear st)) = []"
proof -
  from assms obtain tid d cb where t: "timers st = [(tid, d, cb)]"
    by (cases "timers st") auto
  have d: "isDone (sj_clear st)"
    by (simp add: sj_clear_def sj_clearTimeout_def Let_def split: option.splits)
  have "timers (sj_clear st) = [] \<or> timers (sj_clear st) = [(tid, d, cb)]"
    using t by (auto simp: sj_clear_def sj_clearTimeout_def Let_def split: option.splits)
  then show ?thesis using d
    by (auto simp: sj_fire_def sj_callback_body_def split: sj_callback.splits)
qed

text \<open>
  C10. The job timer that the registry uses never stops on its own. After \<open>scheduleJob\<close>
  and any number of timer firings, at any clock readings and whatever \<open>fn\<close> does, the
  timer is not done and exactly one timer is armed. When the computation of the next run
  time throws, the timer armed is the 5000 ms retry; when the computed time is not after
  the clock, it is the 100 ms retry. There is no failure counter in the state. After
  \<open>clear()\<close> the timer is done and the next firing, if any, arms nothing.
\<close>

theorem scheduleJob_runs_until_cleared:
  "(let st = sj_run tz sch fn_throws utc_opt clocks (scheduleJob tz sch utc_opt now1 now2) in
     \<not> isDone st \<and> length (timers st) = 1
   \<and> (\<forall>c e. getNextScheduledTime tz sch utc_opt (fst c) = Inl e \<longrightarrow>
        (\<exists>tid. timers (sj_fire tz sch fn_throws utc_opt c st) = [(tid, Some 5000, RetryCb)]))
   \<and> (\<forall>c t. getNextScheduledTime tz sch utc_opt (fst c) = Inr (Some t) \<and> t \<le> snd c \<longrightarrow>
        (\<exists>tid. timers (sj_fire tz sch fn_throws utc_opt c st) = [(tid, Some 100, RetryCb)]))
   \<and> isDone (sj_clear st)
   \<and> (\<forall>c. timers (sj_fire tz sch fn_throws utc_opt c (sj_clear st)) = []))"
proof -
  define st where "st = sj_run tz sch fn_throws utc_opt clocks (scheduleJob tz sch utc_opt now1 now2)"
  have alive: "\<not> isDone st" "length (timers st) = 1"
    using sj_run_alive[of "scheduleJob tz sch utc_opt now1 now2" tz sch fn_throws utc_opt clocks]
      scheduleJob_alive[of tz sch utc_opt now1 now2]
    by (auto simp: st_def)
  then obtain tm where t: "timers st = [tm]" by (cases "timers st") auto
  have r1: "\<exists>tid. timers (sj_fire tz sch fn_throws utc_opt c st) = [(tid, Some 5000, RetryCb)]"
    if "getNextScheduledTime tz sch utc_opt (fst c) = Inl e" for c e
  proof -
    from sj_fire_calls_scheduleNext[OF alive(1) t, of tz sch fn_throws utc_opt c]
    obtain st0 where s0: "\<not> isDone st0" "timers st0 = []"
       "sj_fire tz sch fn_throws utc_opt c st = scheduleNext tz sch utc_opt (fst c) (snd c) st0" by blast
    show ?thesis using scheduleNext_error[OF s0(1) that, of "snd c"] s0 by simp
  qed
  have r2: "\<exists>tid. timers (sj_fire tz sch fn_throws utc_opt c st) = [(tid, Some 100, RetryCb)]"
    if "getNextScheduledTime tz sch utc_opt (fst c) = Inr (Some t)" "t \<le> snd c" for c t
  proof -
    from sj_fire_calls_scheduleNext[OF alive(1) \<open>timers st = [tm]\<close>, of tz sch fn_throws utc_opt c]
    obtain st0 where s0: "\<not> isDone st0" "timers st0 = []"
       "sj_fire tz sch fn_throws utc_opt c st = scheduleNext tz sch utc_opt (fst c) (snd c) st0" by blast
    show ?thesis using scheduleNext_past[OF s0(1) that] s0 by simp
  qed
  show ?thesis
    unfolding Let_def st_def[symmetric]
    using alive r1 r2 sj_clear_then_fire[OF alive(2), of tz sch fn_throws utc_opt]
    by blast
qed

theorem scheduleJob_runs_until_cleared_witness:
  "getNextScheduledTime (fixed_zone 0) (Cron ''invalid'') None 10000 = Inl (InvalidCronExpression 1)
   \<and> (\<exists>tid. timers (sj_fire (fixed_zone 0) (Cron ''invalid'') (\<lambda>t. False) None (10000, 10000)
                (sj_run (fixed_zone 0) (Cron ''invalid'') (\<lambda>t. False) None [(5000, 5000)]
                   (scheduleJob (fixed_zone 0) (Cron ''invalid'') None 0 0)))
            = [(tid, Some 5000, RetryCb)])
   \<and> getNextScheduledTime (fixed_zone 0) w_aligned30 (Some True) 1736936445000 = Inr (Some 1736936430000)
   \<and> (1736936430000 :: int) \<le> 1736936445000
   \<and> (\<exists>tid. timers (sj_fire (fixed_zone 0) w_aligned30 (\<lambda>t. False) (Some True)
                (1736936445000, 1736936445000)
                (sj_run (fixed_zone 0) w_aligned30 (\<lambda>t. False) (Some True) []
                   (scheduleJob (fixed_zone 0) w_aligned30 (Some True) 1736936440000 1736936440000)))
            = [(tid, Some 100, RetryCb)])"
proof -
  have a: "getNextScheduledTime (fixed_zone 0) (Cron ''invalid'') None (fst (10000, 10000 :: int))
             = Inl (InvalidCronExpression 1)"
    using parse_invalid by (simp add: getNextScheduledTime_def)
  have b: "getNextScheduledTime (fixed_zone 0) w_aligned30 (Some True)
             (fst (1736936445000, 1736936445000 :: int)) = Inr (Some 1736936430000)
           \<and> (1736936430000 :: int) \<le> snd (1736936445000 :: int, 1736936445000 :: int)"
    unfolding w_aligned30_def by code_simp
  from scheduleJob_runs_until_cleared
         [of "fixed_zone 0" "Cron ''invalid''" "\<lambda>t. False" None "[(5000, 5000)]" 0 0, unfolded Let_def]
       a
  have c: "\<exists>tid. timers (sj_fire (fixed_zone 0) (Cron ''invalid'') (\<lambda>t. False) None (10000, 10000)
                (sj_run (fixed_zone 0) (Cron ''invalid'') (\<lambda>t. False) None [(5000, 5000)]
                   (scheduleJob (fixed_zone 0) (Cron ''invalid'') None 0 0)))
            = [(tid, Some 5000, RetryCb)]"
    by blast
  from scheduleJob_runs_until_cleared
         [of "fixed_zone 0" w_aligned30 "\<lambda>t. False" "Some True" "[]" 1736936440000 1736936440000,
          unfolded Let_def]
       b
  have d: "\<exists>tid. timers (sj_fire (fixed_zone 0) w_aligned30 (\<lambda>t. False) (Some True)
                (1736936445000, 1736936445000)
                (sj_run (fixed_zone 0) w_aligned30 (\<lambda>t. False) (Some True) []
                   (scheduleJob (fixed_zone 0) w_aligned30 (Some True) 1736936440000 1736936440000)))
            = [(tid, Some 100, RetryCb)]"
    by blast
  from a b c d show ?thesis by simp
qed

section \<open>Properties of the recurring timer of timerManager\<close>

lemma fails_validation_Inl:
  "fails_validation r now \<Longrightarrow> \<exists>err. validate_next r now = Inl err"
  by (auto simp: fails_validation_def validate_next_def split: next_result.splits option.splits)

lemma armed_delays_append [simp]: "armed_delays (xs @ ys) = armed_delays xs @ armed_delays ys"
  by (simp add: armed_delays_def)

lemma armed_delays_Nil [simp]: "armed_delays [] = []"
  by (simp add: armed_delays_def)

lemma armed_delays_Cons [simp]: "armed_delays (x # xs) = armed_delay x @ armed_delays xs"
  by (simp add: armed_delays_def)

lemma tm_scheduleNext_retry:
  assumes "\<not> tm_done st" and "validate_next (g (tm_calls st) now) now = Inl err"
    and "int (Suc (consecutiveFailures st)) < max_failures opts"
  shows "tm_scheduleNext opts g now st =
     st\<lparr>tm_calls := Suc (tm_calls st),
        consecutiveFailures := Suc (consecutiveFailures st),
        tm_trace := tm_trace st @ (if has_onError opts then [OnErrorCalled err] else [])
                      @ [TimerArmed (backoff (Suc (consecutiveFailures st)))],
        tm_timers := tm_timers st @ [(tm_next_id st, backoff (Suc (consecutiveFailures st)), BackoffCb)],
        tm_next_id := Suc (tm_next_id st),
        tm_currentTimer := Some (tm_next_id st)\<rparr>"
  using assms
  by (simp add: tm_scheduleNext_def max_failures_def backoff_def tm_emit_def tm_setTimeout_def Let_def)

lemma tm_scheduleNext_trip:
  assumes "\<not> tm_done st" and "validate_next (g (tm_calls st) now) now = Inl err"
    and "int (Suc (consecutiveFailures st)) \<ge> max_failures opts"
  shows "tm_scheduleNext opts g now st =
     st\<lparr>tm_calls := Suc (tm_calls st),
        consecutiveFailures := Suc (consecutiveFailures st),
        tm_trace := tm_trace st @ (if has_onError opts then [OnErrorCalled err] else [])
                      @ (if has_onCircuitBreak opts
                         then [OnCircuitBreakCalled (CircuitBreakerTripped (max_failures opts) err)] else []),
        tm_done := True\<rparr>"
  using assms
  by (simp add: tm_scheduleNext_def max_failures_def tm_emit_def Let_def)

lemma tm_run_no_timers: "tm_timers st = [] \<Longrightarrow> tm_run tz opts g ex clocks st = st"
  by (induction clocks) (simp_all add: tm_fire_def)

lemma upt_backoff: "j < m \<Longrightarrow> map backoff [j..<m] = backoff j # map backoff [Suc j..<m]"
  by (simp add: upt_conv_Cons)

lemma failing_run:
  assumes af: "always_fails g"
  shows "\<not> tm_done st \<Longrightarrow> tm_timers st = [] \<Longrightarrow> int (consecutiveFailures st) < max_failures opts
     \<Longrightarrow> nat (max_failures opts) - Suc (consecutiveFailures st) \<le> length clocks
     \<Longrightarrow> (let st' = tm_run tz opts g ex clocks (tm_scheduleNext opts g now st);
              n = nat (max_failures opts) - consecutiveFailures st in
          tm_done st' \<and> tm_timers st' = []
        \<and> tm_calls st' = tm_calls st + n
        \<and> consecutiveFailures st' = nat (max_failures opts)
        \<and> armed_delays (tm_trace st') = armed_delays (tm_trace st)
              @ map backoff [Suc (consecutiveFailures st)..<nat (max_failures opts)]
        \<and> length (filter is_OnError (tm_trace st')) = length (filter is_OnError (tm_trace st))
              + (if has_onError opts then n else 0)
        \<and> length (filter is_OnCircuitBreak (tm_trace st')) = length (filter is_OnCircuitBreak (tm_trace st))
              + (if has_onCircuitBreak opts then 1 else 0)
        \<and> filter is_progress (tm_trace st') = filter is_progress (tm_trace st))"
proof (induction clocks arbitrary: st now)
  case Nil
  from af obtain err where e: "validate_next (g (tm_calls st) now) now = Inl err"
    using fails_validation_Inl unfolding always_fails_def by blast
  from Nil have trip: "int (Suc (consecutiveFailures st)) \<ge> max_failures opts" by simp
  with Nil have eq: "nat (max_failures opts) = Suc (consecutiveFailures st)" by linarith
  show ?case
    using Nil eq by (simp add: tm_scheduleNext_trip[where g=g and st=st and now=now, OF Nil(1) e trip] Let_def)
next
  case (Cons c clocks)
  from af obtain err where e: "validate_next (g (tm_calls st) now) now = Inl err"
    using fails_validation_Inl unfolding always_fails_def by blast
  show ?case
  proof (cases "int (Suc (consecutiveFailures st)) \<ge> max_failures opts")
    case True
    with Cons.prems have eq: "nat (max_failures opts) = Suc (consecutiveFailures st)" by linarith
    show ?thesis
      using Cons.prems eq
      by (simp add: tm_scheduleNext_trip[where g=g and st=st and now=now, OF Cons.prems(1) e True] Let_def tm_fire_def tm_run_no_timers)
  next
    case False
    then have lt: "int (Suc (consecutiveFailures st)) < max_failures opts" by simp
    let ?s1 = "tm_scheduleNext opts g now st"
    let ?s0 = "?s1\<lparr>tm_timers := []\<rparr>"
    have s1: "?s1 = st\<lparr>tm_calls := Suc (tm_calls st),
        consecutiveFailures := Suc (consecutiveFailures st),
        tm_trace := tm_trace st @ (if has_onError opts then [OnErrorCalled err] else [])
                      @ [TimerArmed (backoff (Suc (consecutiveFailures st)))],
        tm_timers := tm_timers st @ [(tm_next_id st, backoff (Suc (consecutiveFailures st)), BackoffCb)],
        tm_next_id := Suc (tm_next_id st),
        tm_currentTimer := Some (tm_next_id st)\<rparr>"
      by (rule tm_scheduleNext_retry[where g=g and st=st and now=now, OF Cons.prems(1) e lt])
    have fire: "tm_fire tz opts g ex c ?s1 = tm_scheduleNext opts g c ?s0"
      using Cons.prems by (simp add: s1 tm_fire_def tm_callback_body_def)
    have p: "\<not> tm_done ?s0" "tm_timers ?s0 = []" "int (consecutiveFailures ?s0) < max_failures opts"
       "nat (max_failures opts) - Suc (consecutiveFailures ?s0) \<le> length clocks"
      using Cons.prems lt by (simp_all add: s1)
    have m: "Suc (consecutiveFailures st) < nat (max_failures opts)" using lt by linarith
    note ih = Cons.IH[OF p, of c, unfolded Let_def]
    show ?thesis
      unfolding Let_def tm_run.simps fire
      using ih m
      by (simp add: s1 upt_backoff[OF m] Suc_diff_Suc)
  qed
qed

text \<open>
  C2. Let every call of \<open>getNextTime\<close> fail validation and let the limit
  \<open>maxConsecutiveFailures\<close> (3 when not given) be at least 1. Run \<open>scheduleRecurring\<close>
  and let the armed timer fire at any clock readings, at least limit - 1 of them. Then
  exactly limit attempts have been made (calls of \<open>getNextTime\<close>), each of them counted
  and followed by a call of \<open>onError\<close> when that callback is given; after the f-th
  failure, for f below the limit, a timer of min(10 * 2^(f-1), 60000) ms was armed, and
  no other timer; \<open>onCircuitBreak\<close> was called once when given; \<open>onSchedule\<close> and
  \<open>execute\<close> were never called; the timer is done, nothing is armed, and a further
  firing changes nothing.
\<close>

theorem scheduleRecurring_circuit_breaker:
  assumes "always_fails getNextTime" and "1 \<le> max_failures opts"
    and "nat (max_failures opts) - 1 \<le> length clocks"
  shows "(let st = tm_run tz opts getNextTime execute clocks
                     (scheduleRecurring opts getNextTime now);
              m = nat (max_failures opts) in
          tm_done st \<and> tm_timers st = [] \<and> tm_calls st = m \<and> consecutiveFailures st = m
        \<and> armed_delays (tm_trace st) = map (\<lambda>f. min (10 * 2 ^ (f - 1)) 60000) [1..<m]
        \<and> length (filter is_OnError (tm_trace st)) = (if has_onError opts then m else 0)
        \<and> length (filter is_OnCircuitBreak (tm_trace st))
            = (if has_onCircuitBreak opts then 1 else 0)
        \<and> filter is_progress (tm_trace st) = []
        \<and> (\<forall>t. tm_fire tz opts getNextTime execute t st = st))"
proof -
  let ?init = "\<lparr>tm_done = False, tm_currentTimer = None, consecutiveFailures = 0,
                tm_timers = [], tm_next_id = 0, tm_calls = 0,
                tm_trace = ([] :: 'a tm_event list)\<rparr>"
  have p: "\<not> tm_done ?init" "tm_timers ?init = []"
     "int (consecutiveFailures ?init) < max_failures opts"
     "nat (max_failures opts) - Suc (consecutiveFailures ?init) \<le> length clocks"
    using assms(2,3) by simp_all
  have b: "map backoff [Suc 0..<nat (max_failures opts)]
             = map (\<lambda>f. min (10 * 2 ^ (f - 1)) 60000) [1..<nat (max_failures opts)]"
    by (simp add: backoff_def)
  from failing_run[OF assms(1) p, of tz execute now, unfolded Let_def]
  show ?thesis
    unfolding Let_def scheduleRecurring_def
    using b by (simp add: tm_fire_def)
qed

theorem scheduleRecurring_circuit_breaker_witness:
  "always_fails (\<lambda>k t. ReturnsDate None :: unit next_result) \<and> 1 \<le> max_failures w_opts
   \<and> nat (max_failures w_opts) - 1 \<le> length [10, 30 :: int]
   \<and> tm_calls (tm_run (fixed_zone 0) w_opts (\<lambda>k t. ReturnsDate None :: unit next_result) (\<lambda>t. None)
                  [10, 30] (scheduleRecurring w_opts (\<lambda>k t. ReturnsDate None) 0)) = 3
   \<and> armed_delays (tm_trace (tm_run (fixed_zone 0) w_opts (\<lambda>k t. ReturnsDate None :: unit next_result)
                  (\<lambda>t. None) [10, 30] (scheduleRecurring w_opts (\<lambda>k t. ReturnsDate None) 0)))
       = [10, 20]"
proof -
  have a: "always_fails (\<lambda>k t. ReturnsDate None :: unit next_result)"
    by (simp add: always_fails_def fails_validation_def)
  have m: "max_failures w_opts = 3" by (simp add: max_failures_def w_opts_def)
  have b: "1 \<le> max_failures w_opts" using m by simp
  have c: "nat (max_failures w_opts) - 1 \<le> length [10, 30 :: int]" using m by simp
  have u: "[1..<3] = [1, 2 :: nat]" by (simp add: upt_conv_Cons)
  from scheduleRecurring_circuit_breaker[OF a b c, of "fixed_zone 0" "\<lambda>t. None" 0, unfolded Let_def]
       a b c m u
  show ?thesis by simp
qed


section \<open>Properties of time values\<close>

lemma div_60000: "(t::int) div 60000 = (t div 1000) div 60"
  using zdiv_zmult2_eq[of 60 t 1000] by simp

lemma div_3600000: "(t::int) div 3600000 = (t div 60000) div 60"
  using zdiv_zmult2_eq[of 60 t 60000] by simp

lemma div_86400000: "(t::int) div 86400000 = (t div 3600000) div 24"
  using zdiv_zmult2_eq[of 24 t 3600000] by simp

lemma time_decomposition:
  "Day t * msPerDay + getUTCHours t * 3600000 + getUTCMinutes t * 60000
     + getUTCSeconds t * 1000 + getUTCMilliseconds t = t"
proof -
  have m: "\<And>x n::int. x mod n = x - (x div n) * n"
    by (simp add: minus_div_mult_eq_mod)
  show ?thesis
    unfolding Day_def msPerDay_def getUTCHours_def getUTCMinutes_def getUTCSeconds_def
      getUTCMilliseconds_def
    apply (simp only: m)
    apply (simp only: div_86400000 div_3600000 div_60000)
    apply (simp add: algebra_simps)
    done
qed

lemma mod_60000: "(t::int) mod 60000 = getUTCSeconds t * 1000 + getUTCMilliseconds t"
  using zmod_zmult2_eq[of 60 t 1000] by (simp add: getUTCSeconds_def getUTCMilliseconds_def)

lemma setUTCMinutes_shift: "setUTCMinutes t m = t + (m - getUTCMinutes t) * 60000"
  using time_decomposition[of t] by (simp add: setUTCMinutes_def algebra_simps)

lemma setUTCHours_shift: "setUTCHours t h = t + (h - getUTCHours t) * 3600000"
  using time_decomposition[of t] by (simp add: setUTCHours_def setUTCHours4_def algebra_simps)

lemma setUTCSeconds2_zero: "setUTCSeconds2 t 0 0 = t - t mod 60000"
  using time_decomposition[of t] by (simp add: setUTCSeconds2_def mod_60000)

lemma setUTCDate_shift: "setUTCDate t d = t + (d - getUTCDate t) * msPerDay"
proof -
  have "Day t * msPerDay + TimeWithinDay t = t"
    by (simp add: Day_def TimeWithinDay_def)
  then show ?thesis by (simp add: setUTCDate_def algebra_simps)
qed

text \<open>
  On a host whose zone has one offset and no transitions, local time is UTC shifted, and a
  local setter moves the instant by the difference of the component.
\<close>

lemma LocalTime_fixed: "LocalTime (fixed_zone tz) t = t + tz * 60000"
  by (simp add: LocalTime_def fixed_zone_def)

lemma UTC_fixed: "UTC (fixed_zone tz) t = t - tz * 60000"
  by (simp add: UTC_def fixed_zone_def)

lemma setSeconds2_zero: "setSeconds2 (fixed_zone tz) t 0 0 = t - t mod 60000"
  by (simp add: setSeconds2_def UTC_fixed LocalTime_fixed setUTCSeconds2_zero)

lemma setMinutes_shift:
  "setMinutes (fixed_zone tz) t m = t + (m - getMinutes (fixed_zone tz) t) * 60000"
  by (simp add: setMinutes_def getMinutes_def UTC_fixed LocalTime_fixed setUTCMinutes_shift)

lemma setHours_shift:
  "setHours (fixed_zone tz) t h = t + (h - getHours (fixed_zone tz) t) * 3600000"
  by (simp add: setHours_def getHours_def UTC_fixed LocalTime_fixed setUTCHours_shift)

lemma next_minute:
  "setMinutes (fixed_zone tz) t (getMinutes (fixed_zone tz) t + 1) = t + 60000"
  by (simp add: setMinutes_shift)

lemma setDate_next:
  "setDate (fixed_zone tz) t (getDate (fixed_zone tz) t + 1) = t + msPerDay"
  by (simp add: setDate_def getDate_def UTC_fixed LocalTime_fixed setUTCDate_shift)

text \<open>The range of Date: rounding a valid time value down to its minute keeps it valid.\<close>

lemma TimeClip_valid: "valid_time t \<Longrightarrow> TimeClip t = Some t"
  by (simp add: TimeClip_def)

lemma valid_time_floor:
  assumes "valid_time t"
  shows "valid_time (t - t mod 60000)"
proof -
  have e: "t - t mod 60000 = t div 60000 * 60000"
    by (simp add: minus_mod_eq_div_mult)
  from assms have "(- 8640000000000000) div 60000 \<le> t div 60000"
    unfolding valid_time_def by (intro zdiv_mono1) simp_all
  then have "- 144000000000 \<le> t div 60000" by simp
  then have "- 8640000000000000 \<le> t div 60000 * 60000" by linarith
  moreover have "t - t mod 60000 \<le> t" by simp
  ultimately show ?thesis using assms unfolding valid_time_def e[symmetric] by linarith
qed

lemma getUTCMinutes_add: "getUTCMinutes (t + k * 60000) = (getUTCMinutes t + k) mod 60"
  by (simp add: getUTCMinutes_def mod_simps add.commute)

lemma getUTCMinutes_floor: "getUTCMinutes (t - t mod 60000) = getUTCMinutes t"
proof -
  have "(t - t mod 60000) div 60000 = t div 60000"
    by (simp add: minus_mod_eq_mult_div)
  then show ?thesis by (simp add: getUTCMinutes_def)
qed

lemma getMinutes_add:
  "getMinutes (fixed_zone tz) (t + k * 60000) = (getMinutes (fixed_zone tz) t + k) mod 60"
  using getUTCMinutes_add[of "t + tz * 60000" k]
  by (simp add: getMinutes_def LocalTime_fixed algebra_simps)

lemma getMinutes_floor:
  "getMinutes (fixed_zone tz) (t - t mod 60000) = getMinutes (fixed_zone tz) t"
proof -
  have "(t - t mod 60000 + tz * 60000) div 60000 = (t + tz * 60000) div 60000"
    by (simp add: minus_mod_eq_mult_div)
  then show ?thesis by (simp add: getMinutes_def getUTCMinutes_def LocalTime_fixed add.commute)
qed

lemma getUTCMinutes_range: "0 \<le> getUTCMinutes t \<and> getUTCMinutes t < 60"
  by (simp add: getUTCMinutes_def)

lemma floor_minute_seconds:
  "getUTCSeconds (t - t mod 60000 + k * 60000) = 0
   \<and> getUTCMilliseconds (t - t mod 60000 + k * 60000) = 0"
proof -
  have e: "t - t mod 60000 + k * 60000 = (t div 60000 + k) * 60000"
    by (simp add: minus_mod_eq_mult_div algebra_simps)
  have "((t div 60000 + k) * 60000) div 1000 = (t div 60000 + k) * 60" by simp
  then show ?thesis
    unfolding e by (simp add: getUTCSeconds_def getUTCMilliseconds_def)
qed

lemma zone_minutes_add:
  "zone_minutes (fixed_zone tz) useUTC (t + k * 60000)
     = (zone_minutes (fixed_zone tz) useUTC t + k) mod 60"
  by (simp add: zone_minutes_def getUTCMinutes_add getMinutes_add)

lemma zone_minutes_floor:
  "zone_minutes (fixed_zone tz) useUTC (t - t mod 60000) = zone_minutes (fixed_zone tz) useUTC t"
  by (simp add: zone_minutes_def getUTCMinutes_floor getMinutes_floor)

lemma zone_minutes_range: "0 \<le> zone_minutes tz useUTC t \<and> zone_minutes tz useUTC t < 60"
  by (simp add: zone_minutes_def getUTCMinutes_def getMinutes_def)

text \<open>
  The calendar: the day of the cycle year is at most 365, so months are 0 to 11, days of
  the month 1 to 31, and a day in February is at most the 29th.
\<close>

lemma doy_range: "0 \<le> day_of_cycle_year d \<and> day_of_cycle_year d \<le> 365"
proof -
  define r2 where "r2 = ((d + 719468) mod 146097 - min 3 ((d + 719468) mod 146097 div 36524) * 36524) mod 1461"
  have r: "0 \<le> r2 \<and> r2 < 1461" by (simp add: r2_def)
  have "0 \<le> r2 - min 3 (r2 div 365) * 365 \<and> r2 - min 3 (r2 div 365) * 365 \<le> 365"
    using r by (simp add: min_def) arith
  then show ?thesis by (simp add: day_of_cycle_year_def Let_def r2_def)
qed

lemma month_index_range: "0 \<le> month_index d \<and> month_index d \<le> 11"
  using doy_range[of d] by (simp add: month_index_def) arith

lemma getUTCDate_range: "1 \<le> getUTCDate t \<and> getUTCDate t \<le> 31"
proof -
  define doy where "doy = day_of_cycle_year (Day t)"
  define mp where "mp = (5 * doy + 2) div 153"
  have a: "153 * mp \<le> 5 * doy + 2 \<and> 5 * doy + 2 < 153 * mp + 153"
    unfolding mp_def by arith
  have "1 \<le> doy - (153 * mp + 2) div 5 + 1 \<and> doy - (153 * mp + 2) div 5 + 1 \<le> 31"
    using a by arith
  then show ?thesis by (simp add: getUTCDate_def month_index_def Let_def doy_def mp_def)
qed

lemma february_has_no_30th: "getUTCMonth t = 1 \<Longrightarrow> getUTCDate t \<le> 29"
proof -
  assume f: "getUTCMonth t = 1"
  have r: "0 \<le> month_index (Day t)" using month_index_range by simp
  from f r have mp: "month_index (Day t) = 11"
    by (simp add: getUTCMonth_def Let_def split: if_splits)
  show ?thesis using doy_range[of "Day t"] by (simp add: getUTCDate_def Let_def mp)
qed

lemma getUTCDay_range: "0 \<le> getUTCDay t \<and> getUTCDay t \<le> 6"
  by (simp add: getUTCDay_def)


section \<open>Properties of aligned minutes\<close>

lemma ceil_div_next_multiple:
  assumes "1 \<le> N"
  shows "ceil_div (m + 1) N * N = (m div N + 1) * N"
proof -
  from assms have N0: "0 < N" by simp
  have "(- (m + 1)) div N = - (m div N) - 1"
  proof (rule int_div_pos_eq)
    show "- (m + 1) = N * (- (m div N) - 1) + (N - 1 - m mod N)"
      using mult_div_mod_eq[of N m] by (simp add: algebra_simps)
    show "0 \<le> N - 1 - m mod N" using pos_mod_bound[OF N0, of m] by simp
    show "N - 1 - m mod N < N" using pos_mod_sign[OF N0, of m] by simp
  qed
  then show ?thesis by (simp add: ceil_div_def)
qed

lemma next_multiple_bounds:
  assumes "1 \<le> (N::int)"
  shows "m < (m div N + 1) * N \<and> (m div N + 1) * N \<le> m + N \<and> N dvd (m div N + 1) * N"
proof -
  have "(m div N + 1) * N = m - m mod N + N"
    by (simp add: minus_mod_eq_mult_div algebra_simps)
  moreover from assms have "0 < N" by simp
  ultimately show ?thesis using pos_mod_bound[of N m] pos_mod_sign[of N m] by simp
qed

lemma getAlignedInterval_minutes:
  assumes "1 \<le> N" and "valid_time from" and "from \<le> 8640000000000000 - 7200000"
  shows "getAlignedInterval (fixed_zone tz) N Minutes from useUTC =
     (let m = zone_minutes (fixed_zone tz) useUTC from; a = (m div N + 1) * N in
      Some (from - from mod 60000
              + (if a \<ge> 60 then 60 + a mod 60 - m else a - m) * 60000))"
proof -
  let ?z = "fixed_zone tz"
  let ?n0 = "from - from mod 60000"
  let ?m = "zone_minutes ?z useUTC from"
  let ?a = "(?m div N + 1) * N"
  have v0: "valid_time ?n0" using assms(2) by (rule valid_time_floor)
  have n0: "TimeClip (setSeconds2 ?z from 0 0) = Some ?n0"
    using v0 by (simp add: setSeconds2_zero TimeClip_valid)
  have le: "?n0 \<le> from" by simp
  have lo: "- 8640000000000000 \<le> ?n0" using v0 by (simp add: valid_time_def)
  have mr: "0 \<le> ?m \<and> ?m < 60" by (rule zone_minutes_range)
  have nb: "?m < ?a \<and> ?a \<le> ?m + N \<and> N dvd ?a" by (rule next_multiple_bounds[OF assms(1)])
  have ar: "0 \<le> ?a mod 60 \<and> ?a mod 60 < 60" by simp
  have up: "from \<le> 8639999992800000" using assms(3) by simp
  have v1: "valid_time (?n0 + 3600000)"
    unfolding valid_time_def using lo le up by linarith
  have v2: "valid_time (?n0 + (60 + ?a mod 60 - ?m) * 60000)"
  proof -
    define k where "k = 60 + ?a mod 60 - ?m"
    have "0 \<le> k \<and> k \<le> 119" unfolding k_def using mr ar by linarith
    then have "valid_time (?n0 + k * 60000)"
      unfolding valid_time_def using lo le up by linarith
    then show ?thesis by (simp only: k_def)
  qed
  have v3: "valid_time (?n0 + (?a - ?m) * 60000)" if "\<not> 60 \<le> ?a"
  proof -
    define k where "k = ?a - ?m"
    have "0 \<le> k \<and> k \<le> 59" unfolding k_def using mr nb that by linarith
    then have "valid_time (?n0 + k * 60000)"
      unfolding valid_time_def using lo le up by linarith
    then show ?thesis by (simp only: k_def)
  qed
  have m0: "zone_minutes ?z useUTC ?n0 = ?m" by (rule zone_minutes_floor)
  have mh: "zone_minutes ?z useUTC (?n0 + 3600000) = ?m"
    using zone_minutes_add[of tz useUTC "?n0" 60] mr by (simp add: m0)
  show ?thesis
  proof (cases useUTC)
    case True
    have m0': "getUTCMinutes ?n0 = ?m" using m0 True by (simp add: zone_minutes_def)
    have cd: "ceil_div (getUTCMinutes ?n0 + 1) N * N = ?a"
      using ceil_div_next_multiple[OF assms(1), of ?m] m0' by simp
    have h1: "TimeClip (setUTCHours ?n0 (getUTCHours ?n0 + 1)) = Some (?n0 + 3600000)"
      using v1 by (simp add: setUTCHours_shift TimeClip_valid)
    have s1: "setUTCMinutes (?n0 + 3600000) (?a mod 60) = ?n0 + (60 + ?a mod 60 - ?m) * 60000"
      using mh True by (simp add: setUTCMinutes_shift zone_minutes_def algebra_simps)
    have c1: "date_update (\<lambda>n1. setUTCMinutes n1 (?a mod 60))
                (TimeClip (setUTCHours ?n0 (getUTCHours ?n0 + 1)))
              = Some (?n0 + (60 + ?a mod 60 - ?m) * 60000)"
      unfolding h1 date_update_def using v2 by (simp add: s1 TimeClip_valid)
    have c2: "TimeClip (setUTCMinutes ?n0 ?a) = Some (?n0 + (?a - ?m) * 60000)"
      if "\<not> 60 \<le> ?a"
      using v3[OF that] m0' by (simp add: setUTCMinutes_shift TimeClip_valid)
    show ?thesis
      unfolding getAlignedInterval_def n0 Let_def
      using True assms(1) cd c1 c2 by simp
  next
    case False
    have m0': "getMinutes ?z ?n0 = ?m" using m0 False by (simp add: zone_minutes_def)
    have cd: "ceil_div (getMinutes ?z ?n0 + 1) N * N = ?a"
      using ceil_div_next_multiple[OF assms(1), of ?m] m0' by simp
    have h1: "TimeClip (setHours ?z ?n0 (getHours ?z ?n0 + 1)) = Some (?n0 + 3600000)"
      using v1 by (simp add: setHours_shift TimeClip_valid)
    have s1: "setMinutes ?z (?n0 + 3600000) (?a mod 60) = ?n0 + (60 + ?a mod 60 - ?m) * 60000"
      using mh False by (simp add: setMinutes_shift zone_minutes_def algebra_simps)
    have c1: "date_update (\<lambda>n1. setMinutes ?z n1 (?a mod 60))
                (TimeClip (setHours ?z ?n0 (getHours ?z ?n0 + 1)))
              = Some (?n0 + (60 + ?a mod 60 - ?m) * 60000)"
      unfolding h1 date_update_def using v2 by (simp add: s1 TimeClip_valid)
    have c2: "TimeClip (setMinutes ?z ?n0 ?a) = Some (?n0 + (?a - ?m) * 60000)"
      if "\<not> 60 \<le> ?a"
      using v3[OF that] m0' by (simp add: setMinutes_shift TimeClip_valid)
    show ?thesis
      unfolding getAlignedInterval_def n0 Let_def
      using False assms(1) cd c1 c2 by simp
  qed
qed

text \<open>
  C6, as stated, fails: for \<open>{every: 7, unit: "minutes", aligned: true}\<close> in UTC mode,
  the next instant after 2025-01-15T10:56:10Z is 2025-01-15T11:03:00Z. The next multiple
  of 7 above 56 is 63, which is carried into the hour and taken mod 60; minute 3 is not
  a multiple of 7.
\<close>

theorem aligned_minutes_not_a_multiple:
  "getAlignedInterval (fixed_zone 0) 7 Minutes 1736938570000 True = Some 1736938980000
   \<and> getUTCMinutes 1736938980000 = 3 \<and> \<not> (7 :: int) dvd 3"
  by code_simp

text \<open>
  C6, amended. On a host whose time zone has a fixed offset from UTC, a whole number of
  minutes, for every aligned-minutes schedule with \<open>N \<ge> 1\<close> and every starting
  instant that is a valid Date at least two hours before the end of the range of Date:
  the next instant has seconds 0 and milliseconds 0, and its minute of the hour in the
  chosen zone lies in [0, 60) and is obtained from \<open>a\<close>, the next multiple of \<open>N\<close>
  strictly greater than the current minute: it is \<open>a\<close> when \<open>a < 60\<close>, and
  \<open>a mod 60\<close> in the next hour when \<open>a \<ge> 60\<close>. This minute is a multiple of \<open>N\<close>
  when \<open>N\<close> divides 60.
\<close>

theorem aligned_minutes_next:
  assumes "1 \<le> N" and "valid_time from" and "from \<le> 8640000000000000 - 7200000"
  shows "\<exists>r. getAlignedInterval (fixed_zone tz) N Minutes from useUTC = Some r
     \<and> getUTCSeconds r = 0 \<and> getUTCMilliseconds r = 0
     \<and> 0 \<le> zone_minutes (fixed_zone tz) useUTC r \<and> zone_minutes (fixed_zone tz) useUTC r < 60
     \<and> (let m = zone_minutes (fixed_zone tz) useUTC from; a = (m div N + 1) * N in
          m < a \<and> a \<le> m + N \<and> N dvd a
          \<and> zone_minutes (fixed_zone tz) useUTC r = (if a \<ge> 60 then a mod 60 else a)
          \<and> r = from - from mod 60000
                  + (if a \<ge> 60 then 60 + a mod 60 - m else a - m) * 60000)
     \<and> (N dvd 60 \<longrightarrow> N dvd zone_minutes (fixed_zone tz) useUTC r)"
proof -
  define m where "m = zone_minutes (fixed_zone tz) useUTC from"
  define a where "a = (m div N + 1) * N"
  define k where "k = (if a \<ge> 60 then 60 + a mod 60 - m else a - m)"
  define r where "r = from - from mod 60000 + k * 60000"
  have g: "getAlignedInterval (fixed_zone tz) N Minutes from useUTC = Some r"
    using getAlignedInterval_minutes[OF assms, of tz useUTC]
    by (simp add: Let_def r_def k_def a_def m_def)
  have mr: "0 \<le> m \<and> m < 60" unfolding m_def by (rule zone_minutes_range)
  have nb: "m < a \<and> a \<le> m + N \<and> N dvd a"
    unfolding a_def by (rule next_multiple_bounds[OF assms(1)])
  have zr: "zone_minutes (fixed_zone tz) useUTC r = (m + k) mod 60"
    unfolding r_def using zone_minutes_add[of tz useUTC "from - from mod 60000" k]
    by (simp add: zone_minutes_floor m_def)
  have zv: "zone_minutes (fixed_zone tz) useUTC r = (if a \<ge> 60 then a mod 60 else a)"
  proof (cases "a \<ge> 60")
    case True
    then have "(m + k) mod 60 = (60 + a mod 60) mod 60" by (simp add: k_def)
    also have "\<dots> = a mod 60" by simp
    finally show ?thesis using True zr by simp
  next
    case False
    then have "(m + k) mod 60 = a mod 60" by (simp add: k_def)
    moreover have "a mod 60 = a" using False nb mr by simp
    ultimately show ?thesis using False zr by simp
  qed
  have sec: "getUTCSeconds r = 0 \<and> getUTCMilliseconds r = 0"
    unfolding r_def by (rule floor_minute_seconds)
  have dv: "N dvd zone_minutes (fixed_zone tz) useUTC r" if "N dvd 60"
  proof (cases "a \<ge> 60")
    case True
    then show ?thesis using zv nb that by (simp add: dvd_mod)
  next
    case False
    then show ?thesis using zv nb by simp
  qed
  show ?thesis
    using g sec zone_minutes_range[of "fixed_zone tz" useUTC r] nb zv dv
    by (simp add: Let_def m_def[symmetric] a_def[symmetric] r_def k_def)
qed

theorem aligned_minutes_next_witness:
  "(1 :: int) \<le> 15 \<and> valid_time 1736935650000
   \<and> (1736935650000 :: int) \<le> 8640000000000000 - 7200000 \<and> (15 :: int) dvd 60
   \<and> getAlignedInterval (fixed_zone 0) 15 Minutes 1736935650000 True = Some 1736936100000
   \<and> zone_minutes (fixed_zone 0) True 1736936100000 = 15
   \<and> (15 :: int) dvd zone_minutes (fixed_zone 0) True 1736936100000
   \<and> (1 :: int) \<le> 20 \<and> (20 :: int) dvd 60
   \<and> getAlignedInterval (fixed_zone 330) 20 Minutes 1736935650000 False = Some 1736935800000
   \<and> zone_minutes (fixed_zone 330) False 1736935650000 = 37
   \<and> zone_minutes (fixed_zone 330) False 1736935800000 = 40
   \<and> (20 :: int) dvd zone_minutes (fixed_zone 330) False 1736935800000"
proof -
  have g: "getAlignedInterval (fixed_zone 0) 15 Minutes 1736935650000 True = Some 1736936100000"
    by code_simp
  have g': "getAlignedInterval (fixed_zone 330) 20 Minutes 1736935650000 False
              = Some 1736935800000"
    by code_simp
  have h: "(1 :: int) \<le> 15" by simp
  have h': "(1 :: int) \<le> 20" by simp
  have v: "valid_time 1736935650000" by (simp add: valid_time_def)
  have b: "(1736935650000 :: int) \<le> 8640000000000000 - 7200000" by simp
  from aligned_minutes_next[OF h v b, of 0 True] g
  have d: "(15 :: int) dvd 60 \<longrightarrow> 15 dvd zone_minutes (fixed_zone 0) True 1736936100000"
    by auto
  from aligned_minutes_next[OF h' v b, of 330 False] g'
  have d': "(20 :: int) dvd 60
              \<longrightarrow> 20 dvd zone_minutes (fixed_zone 330) False 1736935800000"
    by auto
  have z: "zone_minutes (fixed_zone 0) True 1736936100000 = 15"
    by (simp add: zone_minutes_def getUTCMinutes_def)
  have z': "zone_minutes (fixed_zone 330) False 1736935650000 = 37
          \<and> zone_minutes (fixed_zone 330) False 1736935800000 = 40"
    by (simp add: zone_minutes_def getMinutes_def LocalTime_fixed getUTCMinutes_def)
  show ?thesis using g g' v d d' z z' by simp
qed

text \<open>
  On a host with transitions the first statement of \<open>getAlignedInterval\<close>, the local
  \<open>setSeconds(0, 0)\<close>, resolves the local time again and in a repeated hour lands in its
  first pass: on a host in New York, in UTC mode, with \<open>every = 15\<close>, the next instant
  after 2025-11-02T06:50:15Z is 2025-11-02T06:00:00Z.
\<close>

lemma aligned_minutes_repeated_hour:
  "getAlignedInterval new_york_2025 15 Minutes 1762066215000 True = Some 1762063200000"
  by code_simp


section \<open>Properties of the cron search\<close>

text \<open>
  The search is total: \<open>cron_search\<close> is a function, whose recursion ends because the
  number of iterations left decreases. It returns an instant that matches or raises the
  impossible-schedule error, after at most 4 * 365 * 24 * 60 iterations.
\<close>

lemma cron_search_returns_match:
  "cron_search tz cf u i d = Inl ImpossibleSchedule
   \<or> (\<exists>t. cron_search tz cf u i d = Inr t \<and> matchesCronFields tz t cf u)"
proof (induction tz cf u i d rule: cron_search.induct)
  case (1 tz cf u i d)
  show ?case
  proof (cases "i < MAX_ITERATIONS")
    case False
    then show ?thesis by (subst (1 2) cron_search.simps) simp
  next
    case True
    show ?thesis
    proof (cases d)
      case None
      from "1.IH"(1)[OF True None] show ?thesis
        using True None by (subst (1 2) cron_search.simps) simp
    next
      case (Some t)
      show ?thesis
      proof (cases "matchesCronFields tz t cf u")
        case True
        then show ?thesis using \<open>i < MAX_ITERATIONS\<close> Some
          by (subst (1 2) cron_search.simps) simp
      next
        case False
        from "1.IH"(2)[OF True Some False] show ?thesis
          using True Some False by (subst (1 2) cron_search.simps) simp
      qed
    qed
  qed
qed

lemma cron_search_never_matching:
  "\<forall>t. \<not> matchesCronFields tz t cf u \<Longrightarrow> cron_search tz cf u i d = Inl ImpossibleSchedule"
  using cron_search_returns_match[of tz cf u i d] by auto

lemma parse_feb30: "parseCronExpression ''0 9 30 2 *'' = Inr cf_feb30"
  unfolding cf_feb30_def by code_simp

lemma feb30_never_matches: "\<not> matchesCronFields tz t cf_feb30 u"
proof (cases u)
  case True
  show ?thesis using True february_has_no_30th[of t]
    by (auto simp: matchesCronFields_def cf_feb30_def Let_def)
next
  case False
  show ?thesis using False february_has_no_30th[of "LocalTime tz t"]
    by (auto simp: matchesCronFields_def cf_feb30_def Let_def getMonth_def getDate_def)
qed

text \<open>
  For the parsed expression "0 9 30 2 *" the search raises the impossible-schedule error
  for every \<open>from\<close>, in both modes and on every host.
\<close>

lemma feb30_is_impossible:
  "getNextCronOccurrence tz cf_feb30 from useUTC = Inl ImpossibleSchedule"
  by (simp add: getNextCronOccurrence_def Let_def cron_search_never_matching
        feb30_never_matches)

text \<open>
  On a host with a fixed offset, and within the range of Date, the candidates are the
  whole minutes after \<open>from\<close>, one after the other, and the search returns the first of
  them that matches.
\<close>

lemma advance_minute_fixed:
  "valid_time (t + 60000) \<Longrightarrow> advance_minute (fixed_zone tz) (Some t) = Some (t + 60000)"
  by (simp add: advance_minute_def date_update_def next_minute TimeClip_valid)

lemma cron_search_first_match:
  "matchesCronFields (fixed_zone tz) (cand + int k * 60000) cf u
   \<Longrightarrow> \<forall>j<k. \<not> matchesCronFields (fixed_zone tz) (cand + int j * 60000) cf u
   \<Longrightarrow> i + k < MAX_ITERATIONS
   \<Longrightarrow> - 8640000000000000 \<le> cand \<Longrightarrow> cand + int k * 60000 \<le> 8640000000000000
   \<Longrightarrow> cron_search (fixed_zone tz) cf u i (Some cand) = Inr (cand + int k * 60000)"
proof (induction k arbitrary: i cand)
  case 0
  then show ?case by (subst cron_search.simps) simp
next
  case (Suc k)
  let ?z = "fixed_zone tz"
  have n0: "\<not> matchesCronFields ?z cand cf u" using Suc.prems(2)[rule_format, of 0] by simp
  have a: "matchesCronFields ?z (cand + 60000 + int k * 60000) cf u"
    using Suc.prems(1) by (simp add: algebra_simps)
  have b: "\<forall>j<k. \<not> matchesCronFields ?z (cand + 60000 + int j * 60000) cf u"
  proof (intro allI impI)
    fix j assume "j < k"
    then show "\<not> matchesCronFields ?z (cand + 60000 + int j * 60000) cf u"
      using Suc.prems(2)[rule_format, of "Suc j"] by (simp add: algebra_simps)
  qed
  have c: "Suc i + k < MAX_ITERATIONS" using Suc.prems(3) by simp
  have hi: "cand + 60000 + int k * 60000 \<le> 8640000000000000"
    using Suc.prems(5) by (simp add: algebra_simps)
  have lo: "- 8640000000000000 \<le> cand + 60000" using Suc.prems(4) by simp
  have "cand + 60000 \<le> cand + 60000 + int k * 60000" by simp
  with hi lo have v: "valid_time (cand + 60000)" unfolding valid_time_def by linarith
  have "cron_search ?z cf u i (Some cand) = cron_search ?z cf u (Suc i) (Some (cand + 60000))"
    using n0 Suc.prems(3) by (subst cron_search.simps) (simp add: advance_minute_fixed[OF v])
  also have "\<dots> = Inr (cand + 60000 + int k * 60000)"
    by (rule Suc.IH[OF a b c lo hi])
  finally show ?case by (simp add: algebra_simps)
qed

lemma getNextCronOccurrence_start:
  assumes "valid_time from" and "from + 60000 \<le> 8640000000000000"
  shows "getNextCronOccurrence (fixed_zone tz) cf from u
           = cron_search (fixed_zone tz) cf u 0 (Some (from - from mod 60000 + 60000))"
proof -
  have v0: "valid_time (from - from mod 60000)" using assms(1) by (rule valid_time_floor)
  have "from - from mod 60000 \<le> from" by simp
  then have v1: "valid_time (from - from mod 60000 + 60000)"
    using v0 assms(2) unfolding valid_time_def by linarith
  show ?thesis
    by (simp add: getNextCronOccurrence_def Let_def setSeconds2_zero TimeClip_valid[OF v0]
          advance_minute_fixed[OF v1])
qed

text \<open>
  C7. The search steps with the local \<open>setMinutes\<close> also in UTC mode, so on a host with
  daylight saving time its candidates are not minute by minute. On a host in New York, in
  UTC mode, for "*/5 * * * *" and \<open>from\<close> = 2025-11-02T05:58:00Z: the first candidate is
  05:59:00Z, which is 01:59 local time before the clocks go back; the step from it leads
  to 02:00 local time, which is 07:00:00Z, and the search returns 07:00:00Z. The whole
  minute 06:00:00Z lies after \<open>from\<close> and before the result and matches the expression.
\<close>

theorem cron_search_skips_repeated_hour:
  "parseCronExpression ''*/5 * * * *'' = Inr cf_every5
   \<and> getNextCronOccurrence new_york_2025 cf_every5 1762063080000 True = Inr 1762066800000
   \<and> advance_minute new_york_2025 (TimeClip (setSeconds2 new_york_2025 1762063080000 0 0))
       = Some 1762063140000
   \<and> advance_minute new_york_2025 (Some 1762063140000) = Some 1762066800000
   \<and> matchesCronFields new_york_2025 1762063200000 cf_every5 True
   \<and> (1762063080000 :: int) < 1762063200000 \<and> (1762063200000 :: int) < 1762066800000
   \<and> (1762063200000 :: int) mod 60000 = 0"
proof -
  have p: "parseCronExpression ''*/5 * * * *'' = Inr cf_every5"
    unfolding cf_every5_def by code_simp
  have a1: "advance_minute new_york_2025 (TimeClip (setSeconds2 new_york_2025 1762063080000 0 0))
              = Some 1762063140000"
    by code_simp
  have a2: "advance_minute new_york_2025 (Some 1762063140000) = Some 1762066800000"
    by code_simp
  have m1: "\<not> matchesCronFields new_york_2025 1762063140000 cf_every5 True"
    unfolding cf_every5_def by code_simp
  have m2: "matchesCronFields new_york_2025 1762066800000 cf_every5 True"
    unfolding cf_every5_def by code_simp
  have m3: "matchesCronFields new_york_2025 1762063200000 cf_every5 True"
    unfolding cf_every5_def by code_simp
  have s2: "cron_search new_york_2025 cf_every5 True (Suc 0) (Some 1762066800000)
              = Inr 1762066800000"
    by (subst cron_search.simps) (simp add: m2 MAX_ITERATIONS_def)
  have s1: "cron_search new_york_2025 cf_every5 True 0 (Some 1762063140000)
              = Inr 1762066800000"
    by (subst cron_search.simps) (simp add: m1 a2 s2 MAX_ITERATIONS_def)
  have g: "getNextCronOccurrence new_york_2025 cf_every5 1762063080000 True = Inr 1762066800000"
    by (simp add: getNextCronOccurrence_def Let_def a1 s1)
  show ?thesis using p g a1 a2 m3 by simp
qed

lemma parse_15_or_monday: "parseCronExpression ''0 9 15 * MON'' = Inr cf_15_or_monday"
  unfolding cf_15_or_monday_def by code_simp

lemma candidates_15_or_monday:
  assumes "matchesCronFields tz (1736503260000 + int j * 60000) cf_15_or_monday True"
    and "j < 4259"
  shows "j = 1379 \<or> j = 2819"
proof -
  define y where "y = 28941721 + int j"
  have d: "(1736503260000 + int j * 60000) div 60000 = y" by (simp add: y_def)
  from assms(1) have m: "getUTCMinutes (1736503260000 + int j * 60000) = 0"
    and h: "getUTCHours (1736503260000 + int j * 60000) = 9"
    by (auto simp: matchesCronFields_def cf_15_or_monday_def Let_def split: if_splits)
  from m have m': "y mod 60 = 0" by (simp add: getUTCMinutes_def d)
  from h have h': "(y div 60) mod 24 = 9" by (simp add: getUTCHours_def div_3600000 d)
  have "y mod 1440 = 540" using zmod_zmult2_eq[of 24 y 60] m' h' by simp
  moreover have "28941721 \<le> y \<and> y < 28945980" using assms(2) by (simp add: y_def)
  ultimately have yb: "y mod 1440 = 540" "28941721 \<le> y" "y < 28945980" by simp_all
  define q where "q = y div 1440"
  have yq: "y = 1440 * q + 540"
    using mult_div_mod_eq[of 1440 y] yb(1) by (simp add: q_def)
  have "20098 < q" "q < 20101" using yq yb(2,3) by linarith+
  then have "q = 20099 \<or> q = 20100" by linarith
  then have "y = 28943100 \<or> y = 28944540" using yq by auto
  then show ?thesis by (auto simp: y_def)
qed

lemma no_match_11th: "\<not> matchesCronFields tz 1736586000000 cf_15_or_monday True"
  by (simp add: matchesCronFields_def cf_15_or_monday_def Let_def getUTCMinutes_def getUTCHours_def
        getUTCMonth_def getUTCDate_def getUTCDay_def Day_def msPerDay_def month_index_def day_of_cycle_year_def)

lemma no_match_12th: "\<not> matchesCronFields tz 1736672400000 cf_15_or_monday True"
  by (simp add: matchesCronFields_def cf_15_or_monday_def Let_def getUTCMinutes_def getUTCHours_def
        getUTCMonth_def getUTCDate_def getUTCDay_def Day_def msPerDay_def month_index_def day_of_cycle_year_def)

lemma match_13th: "matchesCronFields tz 1736758800000 cf_15_or_monday True"
  by (simp add: matchesCronFields_def cf_15_or_monday_def Let_def getUTCMinutes_def getUTCHours_def
        getUTCMonth_def getUTCDate_def getUTCDay_def Day_def msPerDay_def month_index_def day_of_cycle_year_def)

lemma next_15_or_monday:
  "getNextCronOccurrence (fixed_zone tz) cf_15_or_monday 1736503200000 True = Inr 1736758800000"
proof -
  let ?z = "fixed_zone tz"
  have s: "(1736503200000::int) - 1736503200000 mod 60000 + 60000 = 1736503260000" by simp
  have n: "\<forall>j<4259. \<not> matchesCronFields ?z (1736503260000 + int j * 60000) cf_15_or_monday True"
  proof (intro allI impI)
    fix j :: nat assume j: "j < 4259"
    show "\<not> matchesCronFields ?z (1736503260000 + int j * 60000) cf_15_or_monday True"
    proof
      assume a: "matchesCronFields ?z (1736503260000 + int j * 60000) cf_15_or_monday True"
      from candidates_15_or_monday[OF a j] a no_match_11th[of ?z] no_match_12th[of ?z]
      show False by auto
    qed
  qed
  have m: "matchesCronFields ?z (1736503260000 + int 4259 * 60000) cf_15_or_monday True"
    using match_13th[of ?z] by simp
  have "cron_search ?z cf_15_or_monday True 0 (Some 1736503260000)
          = Inr (1736503260000 + int 4259 * 60000)"
    by (rule cron_search_first_match[OF m n]) (simp_all add: MAX_ITERATIONS_def)
  moreover have "getNextCronOccurrence ?z cf_15_or_monday 1736503200000 True
          = cron_search ?z cf_15_or_monday True 0 (Some (1736503200000 - 1736503200000 mod 60000 + 60000))"
    by (rule getNextCronOccurrence_start) (simp_all add: valid_time_def)
  ultimately show ?thesis by (simp add: s)
qed


section \<open>Properties of the day rule\<close>

lemma isLastDayOfMonth_date_eq:
  "isLastDayOfMonth_date tz t useUTC
     = (case next_day tz t of
          None \<Rightarrow> True
        | Some t' \<Rightarrow> zone_month tz useUTC t' \<noteq> zone_month tz useUTC t)"
  by (simp add: isLastDayOfMonth_date_def next_day_def zone_month_def split: option.splits)

lemma next_day_fixed: "next_day (fixed_zone m) t = TimeClip (t + msPerDay)"
  by (simp add: next_day_def setDate_next)

lemma matchesCronFields_eq:
  "matchesCronFields tz date cf useUTC
     = (zone_minutes tz useUTC date \<in> set (minute cf)
        \<and> zone_hours tz useUTC date \<in> set (hour cf)
        \<and> zone_month tz useUTC date \<in> set (month cf)
        \<and> (if day_specified cf \<and> weekday_specified cf
           then day_of_month_matches tz cf date useUTC \<or> weekday_matches tz cf date useUTC
           else day_of_month_matches tz cf date useUTC \<and> weekday_matches tz cf date useUTC))"
  unfolding matchesCronFields_def Let_def day_specified_def weekday_specified_def
    day_of_month_matches_def weekday_matches_def isLastDayOfMonth_date_eq
    zone_minutes_def zone_hours_def zone_month_def zone_date_def zone_weekday_def
  by (cases useUTC) auto

lemma wildcard_day_matches:
  "day_of_month_matches tz (cf\<lparr>dayOfMonth := range 1 31, isLastDayOfMonth := False\<rparr>) date useUTC"
  using getUTCDate_range[of date] getUTCDate_range[of "LocalTime tz date"]
  by (simp add: day_of_month_matches_def zone_date_def range_def getDate_def)

lemma wildcard_weekday_matches:
  "weekday_matches tz (cf\<lparr>dayOfWeek := normalizeWeekdays (range 0 7)\<rparr>) date useUTC"
proof -
  have "set (normalizeWeekdays (range 0 7)) = {0..6}"
    by (auto simp: normalizeWeekdays_def range_def)
  then show ?thesis
    using getUTCDay_range[of date] getUTCDay_range[of "LocalTime tz date"]
    by (simp add: weekday_matches_def zone_weekday_def getDay_def)
qed

text \<open>
  C3. On every host, a candidate instant matches parsed cron fields iff its minute, hour
  and month are in their sets and its day matches: when both the day of month and the
  weekday are specified, the day of month matches or the weekday matches; otherwise both
  match. The set of a wildcard field, 1 to 31 for the day and 0 to 7 normalised for the
  weekday, always matches. On a host with a fixed offset the next day, which \<open>L\<close>
  looks at, is the instant 24 hours later. For "0 9 15 * MON" and \<open>from\<close> =
  2025-01-10T10:00:00Z in UTC mode the next occurrence is 2025-01-13T09:00:00.000Z, a
  Monday, on a host with any fixed offset.
\<close>

theorem day_or_weekday_rule:
  "matchesCronFields tz date cf useUTC
     = (zone_minutes tz useUTC date \<in> set (minute cf)
        \<and> zone_hours tz useUTC date \<in> set (hour cf)
        \<and> zone_month tz useUTC date \<in> set (month cf)
        \<and> (if day_specified cf \<and> weekday_specified cf
           then day_of_month_matches tz cf date useUTC \<or> weekday_matches tz cf date useUTC
           else day_of_month_matches tz cf date useUTC \<and> weekday_matches tz cf date useUTC))
   \<and> day_of_month_matches tz (cf\<lparr>dayOfMonth := range 1 31, isLastDayOfMonth := False\<rparr>)
        date useUTC
   \<and> weekday_matches tz (cf\<lparr>dayOfWeek := normalizeWeekdays (range 0 7)\<rparr>) date useUTC
   \<and> (\<forall>m. next_day (fixed_zone m) date = TimeClip (date + msPerDay))
   \<and> (\<exists>cf'. parseCronExpression ''0 9 15 * MON'' = Inr cf'
         \<and> (\<forall>m. getNextCronOccurrence (fixed_zone m) cf' 1736503200000 True
                  = Inr 1736758800000))"
  using matchesCronFields_eq[of tz date cf useUTC] wildcard_day_matches[of tz cf date useUTC]
    wildcard_weekday_matches[of tz cf date useUTC] parse_15_or_monday next_15_or_monday
    next_day_fixed[of _ date]
  by blast

theorem day_or_weekday_rule_witness:
  "matchesCronFields (fixed_zone 0) 1736758800000 cf_15_or_monday True
   \<and> day_specified cf_15_or_monday \<and> weekday_specified cf_15_or_monday
   \<and> \<not> day_of_month_matches (fixed_zone 0) cf_15_or_monday 1736758800000 True
   \<and> weekday_matches (fixed_zone 0) cf_15_or_monday 1736758800000 True"
proof -
  have a: "day_specified cf_15_or_monday \<and> weekday_specified cf_15_or_monday"
    by (simp add: day_specified_def weekday_specified_def cf_15_or_monday_def)
  have b: "\<not> day_of_month_matches (fixed_zone 0) cf_15_or_monday 1736758800000 True"
    by (simp add: day_of_month_matches_def cf_15_or_monday_def zone_date_def getUTCDate_def
          Day_def msPerDay_def month_index_def day_of_cycle_year_def)
  have c: "weekday_matches (fixed_zone 0) cf_15_or_monday 1736758800000 True"
    by (simp add: weekday_matches_def cf_15_or_monday_def zone_weekday_def getUTCDay_def
          Day_def msPerDay_def)
  have d: "zone_minutes (fixed_zone 0) True 1736758800000 \<in> set (minute cf_15_or_monday)
         \<and> zone_hours (fixed_zone 0) True 1736758800000 \<in> set (hour cf_15_or_monday)
         \<and> zone_month (fixed_zone 0) True 1736758800000 \<in> set (month cf_15_or_monday)"
    by (simp add: zone_minutes_def zone_hours_def zone_month_def cf_15_or_monday_def
          getUTCMinutes_def getUTCHours_def getUTCMonth_def Day_def msPerDay_def
          month_index_def day_of_cycle_year_def)
  from day_or_weekday_rule[of "fixed_zone 0" 1736758800000 cf_15_or_monday True] a b c d
  show ?thesis by simp
qed



end
